theory Spec2Isabelle
  imports Main "HOL-Library.Sublist"
begin

section \<open>Python values, exceptions and outcomes\<close>

text \<open>
  The program is a set of Python modules that talk to three remote services: the warehouse
  (Redshift Data API), the completion service (Bedrock) and the compiled agent graph with
  its checkpoint store. Strings are the UTF-8 bytes of the Python text: the delimiters, the
  backslash and the keyword the program looks for are ASCII, and an ASCII byte never
  occurs inside the encoding of another character.
\<close>

text \<open>Decimal rendering of a number inside an f-string.\<close>

function str_nat :: "nat \<Rightarrow> string" where
  "str_nat n = (if n < 10 then [char_of (48 + n)] else str_nat (n div 10) @ [char_of (48 + n mod 10)])"
  by pat_completeness auto
termination
  by (relation "measure id") auto

declare str_nat.simps [simp del]

definition str_int :: "int \<Rightarrow> string" where
  "str_int i = (if i < 0 then CHR ''-'' # str_nat (nat (- i)) else str_nat (nat i))"

text \<open>
  Exceptions are values. \<open>KeyError\<close> carries the missing key (\<open>IntKeyError\<close> when the key
  is an integer), \<open>UnboundLocalError\<close> the name of the variable; \<open>ClientError\<close> carries the
  provider's error code and the text \<^verbatim>\<open>str(e)\<close> prints (botocore's sentence naming the
  code, the operation and the message), \<open>ResourceNotFoundException\<close> (the warehouse client's
  class) that text; every other constructor carries its message. \<open>exn_str\<close> is
  \<^verbatim>\<open>str(e)\<close>, with the wording of CPython 3.11 for the interpreter's own exceptions.
\<close>

datatype exn =
    ResourceNotFoundException string
  | ClientError string string
  | KeyError string
  | IntKeyError int
  | IndexError string
  | TypeError string
  | AttributeError string
  | ValueError string
  | RuntimeError string
  | TimeoutError string
  | UnboundLocalError string
  | OtherException string

text \<open>
  \<^verbatim>\<open>repr\<close> of a string of printable characters: single quotes, unless the string has a
  single quote and no double quote; the quote in use and the backslash are escaped, and so
  are newline, carriage return and tab.
\<close>

definition repr_char :: "char \<Rightarrow> char \<Rightarrow> string" where
  "repr_char quote c =
     (if c = quote \<or> c = CHR 0x5C then [CHR 0x5C, c]
      else if c = CHR 0x0A then [CHR 0x5C, CHR ''n'']
      else if c = CHR 0x0D then [CHR 0x5C, CHR ''r'']
      else if c = CHR 0x09 then [CHR 0x5C, CHR ''t'']
      else [c])"

definition py_repr :: "string \<Rightarrow> string" where
  "py_repr s =
     (let quote = (if CHR 0x27 \<in> set s \<and> CHR 0x22 \<notin> set s then CHR 0x22 else CHR 0x27)
      in quote # concat (map (repr_char quote) s) @ [quote])"

fun exn_str :: "exn \<Rightarrow> string" where
  "exn_str (ResourceNotFoundException text) = text"
| "exn_str (ClientError code text) = text"
| "exn_str (KeyError k) = py_repr k"
| "exn_str (IntKeyError i) = str_int i"
| "exn_str (IndexError m) = m"
| "exn_str (TypeError m) = m"
| "exn_str (AttributeError m) = m"
| "exn_str (ValueError m) = m"
| "exn_str (RuntimeError m) = m"
| "exn_str (TimeoutError m) = m"
| "exn_str (UnboundLocalError v) =
     ''cannot access local variable '' @ py_repr v @ '' where it is not associated with a value''"
| "exn_str (OtherException m) = m"

text \<open>
  A call either returns, raises, or gets no answer: \<open>NoResponse\<close> is the outcome of a run
  whose environment script (below) ends before the program does, which is also how a
  polling loop that never sees a terminal status shows up.
\<close>

datatype 'a outcome = Return 'a | Raise exn | NoResponse

definition answer :: "exn + 'a \<Rightarrow> 'a outcome" where
  "answer a = (case a of Inl e \<Rightarrow> Raise e | Inr v \<Rightarrow> Return v)"

definition bind :: "('w \<Rightarrow> 'a outcome \<times> 'w) \<Rightarrow> ('a \<Rightarrow> 'w \<Rightarrow> 'b outcome \<times> 'w) \<Rightarrow> 'w \<Rightarrow> 'b outcome \<times> 'w" where
  "bind m f w = (case m w of
       (Return v, w') \<Rightarrow> f v w'
     | (Raise e, w') \<Rightarrow> (Raise e, w')
     | (NoResponse, w') \<Rightarrow> (NoResponse, w'))"

definition pure :: "exn + 'a \<Rightarrow> 'w \<Rightarrow> 'a outcome \<times> 'w" where
  "pure a w = (answer a, w)"

fun mapE :: "('a \<Rightarrow> exn + 'b) \<Rightarrow> 'a list \<Rightarrow> exn + 'b list" where
  "mapE f [] = Inr []"
| "mapE f (x # xs) =
     (case f x of Inl e \<Rightarrow> Inl e
      | Inr y \<Rightarrow> (case mapE f xs of Inl e \<Rightarrow> Inl e | Inr ys \<Rightarrow> Inr (y # ys)))"

section \<open>Python string operations\<close>

text \<open>
  \<^verbatim>\<open>str.strip()\<close> removes the whitespace characters at both ends. \<open>whitespace\<close> lists
  the UTF-8 encodings of the characters Python holds to be whitespace: U+0009 to U+000D,
  U+001C to U+0020, U+0085, U+00A0, U+1680, U+2000 to U+200A, U+2028, U+2029, U+202F,
  U+205F and U+3000.
\<close>

definition whitespace :: "string list" where
  "whitespace =
     [[CHR 0x09], [CHR 0x0A], [CHR 0x0B], [CHR 0x0C], [CHR 0x0D],
      [CHR 0x1C], [CHR 0x1D], [CHR 0x1E], [CHR 0x1F], [CHR 0x20],
      [CHR 0xC2, CHR 0x85], [CHR 0xC2, CHR 0xA0], [CHR 0xE1, CHR 0x9A, CHR 0x80],
      [CHR 0xE2, CHR 0x80, CHR 0x80], [CHR 0xE2, CHR 0x80, CHR 0x81], [CHR 0xE2, CHR 0x80, CHR 0x82],
      [CHR 0xE2, CHR 0x80, CHR 0x83], [CHR 0xE2, CHR 0x80, CHR 0x84], [CHR 0xE2, CHR 0x80, CHR 0x85],
      [CHR 0xE2, CHR 0x80, CHR 0x86], [CHR 0xE2, CHR 0x80, CHR 0x87], [CHR 0xE2, CHR 0x80, CHR 0x88],
      [CHR 0xE2, CHR 0x80, CHR 0x89], [CHR 0xE2, CHR 0x80, CHR 0x8A], [CHR 0xE2, CHR 0x80, CHR 0xA8],
      [CHR 0xE2, CHR 0x80, CHR 0xA9], [CHR 0xE2, CHR 0x80, CHR 0xAF], [CHR 0xE2, CHR 0x81, CHR 0x9F],
      [CHR 0xE3, CHR 0x80, CHR 0x80]]"

text \<open>The number of bytes of the whitespace character a text starts with, or ends with.\<close>

definition leading_ws :: "string \<Rightarrow> nat" where
  "leading_ws s = (case find (\<lambda>p. prefix p s) whitespace of None \<Rightarrow> 0 | Some p \<Rightarrow> length p)"

definition trailing_ws :: "string \<Rightarrow> nat" where
  "trailing_ws s = (case find (\<lambda>p. prefix (rev p) (rev s)) whitespace of None \<Rightarrow> 0 | Some p \<Rightarrow> length p)"

function py_lstrip :: "string \<Rightarrow> string" where
  "py_lstrip s = (if s = [] \<or> leading_ws s = 0 then s else py_lstrip (drop (leading_ws s) s))"
  by pat_completeness auto
termination
  by (relation "measure length") auto

function py_rstrip :: "string \<Rightarrow> string" where
  "py_rstrip s = (if s = [] \<or> trailing_ws s = 0 then s else py_rstrip (take (length s - trailing_ws s) s))"
  by pat_completeness auto
termination
  by (relation "measure length") auto

declare py_lstrip.simps [simp del]

declare py_rstrip.simps [simp del]

definition py_strip :: "string \<Rightarrow> string" where
  "py_strip s = py_lstrip (py_rstrip s)"

text \<open>\<^verbatim>\<open>s.replace("\\", "")\<close>: every backslash is removed.\<close>

definition remove_backslashes :: "string \<Rightarrow> string" where
  "remove_backslashes s = filter (\<lambda>c. c \<noteq> CHR 0x5C) s"

text \<open>
  \<open>py_partition sep s\<close> cuts \<open>s\<close> at the leftmost occurrence of \<open>sep\<close>
  (\<^verbatim>\<open>str.partition\<close>); \<open>None\<close> when \<open>sep\<close> does not occur.
\<close>

fun py_partition :: "string \<Rightarrow> string \<Rightarrow> (string \<times> string) option" where
  "py_partition sep [] = None"
| "py_partition sep (c # cs) =
     (if prefix sep (c # cs) then Some ([], drop (length sep) (c # cs))
      else map_option (\<lambda>(a, b). (c # a, b)) (py_partition sep cs))"

lemma py_partition_shorter:
  "py_partition sep s = Some (a, b) \<Longrightarrow> sep \<noteq> [] \<Longrightarrow> length b < length s"
proof (induction s arbitrary: a)
  case Nil
  then show ?case by simp
next
  case (Cons c cs)
  show ?case
  proof (cases "prefix sep (c # cs)")
    case True
    with Cons.prems show ?thesis by (cases sep) auto
  next
    case False
    with Cons.prems obtain a' where "py_partition sep cs = Some (a', b)"
      by (auto split: prod.splits)
    with Cons.IH Cons.prems(2) show ?thesis by fastforce
  qed
qed

text \<open>
  \<^verbatim>\<open>s.split(sep)\<close> for a non-empty separator: the pieces between the leftmost
  non-overlapping occurrences. (Python raises \<open>ValueError\<close> on an empty separator; the
  program only splits on the two fixed delimiters.)
\<close>

function py_split :: "string \<Rightarrow> string \<Rightarrow> string list" where
  "py_split sep s =
     (case (if sep = [] then None else py_partition sep s) of
        None \<Rightarrow> [s]
      | Some (a, b) \<Rightarrow> a # py_split sep b)"
  by pat_completeness auto
termination
  by (relation "measure (\<lambda>(sep, s). length s)")
     (auto split: if_splits dest: py_partition_shorter)

declare py_split.simps [simp del]

text \<open>Indexing a list as Python does for a non-negative index.\<close>

definition py_index :: "'a list \<Rightarrow> nat \<Rightarrow> exn + 'a" where
  "py_index xs i = (if i < length xs then Inr (xs ! i) else Inl (IndexError ''list index out of range''))"

section \<open>Dictionaries\<close>

type_synonym dict = "(string \<times> string) list"

definition getitem :: "dict \<Rightarrow> string \<Rightarrow> exn + string" where
  "getitem d k = (case map_of d k of None \<Rightarrow> Inl (KeyError k) | Some v \<Rightarrow> Inr v)"


definition dict_get :: "dict \<Rightarrow> string \<Rightarrow> string \<Rightarrow> string" where
  "dict_get d k dflt = (case map_of d k of None \<Rightarrow> dflt | Some v \<Rightarrow> v)"

section \<open>JSON values of the completion service\<close>

text \<open>
  The parsed body of a completion response (\<^verbatim>\<open>json.loads\<close>): an object is the parsed
  dict, as an association list read by its first binding of a key. Subscripting follows
  Python: a missing key is a \<open>KeyError\<close>, an empty sequence an \<open>IndexError\<close>, a value
  of the wrong kind a \<open>TypeError\<close>. \<open>JNum\<close> is an integer (a JSON number with a
  fraction behaves alike, with \<^verbatim>\<open>float\<close> for \<^verbatim>\<open>int\<close> in the error texts).
\<close>

datatype json =
    JNull
  | JBool bool
  | JNum int
  | JStr string
  | JArr "json list"
  | JObj "(string \<times> json) list"

text \<open>
  The number of bytes of the character that starts with the byte \<open>c\<close>; a string's
  element 0 is its first character.
\<close>

definition utf8_length :: "char \<Rightarrow> nat" where
  "utf8_length c =
     (let n = (of_char c :: nat)
      in if n < 0xC0 then 1 else if n < 0xE0 then 2 else if n < 0xF0 then 3 else 4)"

definition py_type_name :: "json \<Rightarrow> string" where
  "py_type_name j =
     (case j of JNull \<Rightarrow> ''NoneType'' | JBool b \<Rightarrow> ''bool'' | JNum n \<Rightarrow> ''int''
      | JStr s \<Rightarrow> ''str'' | JArr xs \<Rightarrow> ''list'' | JObj kvs \<Rightarrow> ''dict'')"

definition not_subscriptable :: "json \<Rightarrow> exn" where
  "not_subscriptable j = TypeError (py_repr (py_type_name j) @ '' object is not subscriptable'')"

fun subscript_key :: "json \<Rightarrow> string \<Rightarrow> exn + json" where
  "subscript_key (JObj kvs) k = (case map_of kvs k of None \<Rightarrow> Inl (KeyError k) | Some v \<Rightarrow> Inr v)"
| "subscript_key (JArr xs) k = Inl (TypeError ''list indices must be integers or slices, not str'')"
| "subscript_key (JStr s) k = Inl (TypeError (''string indices must be integers, not '' @ py_repr ''str''))"
| "subscript_key JNull k = Inl (not_subscriptable JNull)"
| "subscript_key (JBool b) k = Inl (not_subscriptable (JBool b))"
| "subscript_key (JNum n) k = Inl (not_subscriptable (JNum n))"

fun subscript_0 :: "json \<Rightarrow> exn + json" where
  "subscript_0 (JArr []) = Inl (IndexError ''list index out of range'')"
| "subscript_0 (JArr (x # xs)) = Inr x"
| "subscript_0 (JStr []) = Inl (IndexError ''string index out of range'')"
| "subscript_0 (JStr (c # cs)) = Inr (JStr (take (utf8_length c) (c # cs)))"
| "subscript_0 (JObj kvs) = Inl (IntKeyError 0)"
| "subscript_0 JNull = Inl (not_subscriptable JNull)"
| "subscript_0 (JBool b) = Inl (not_subscriptable (JBool b))"
| "subscript_0 (JNum n) = Inl (not_subscriptable (JNum n))"

definition then_E :: "exn + 'a \<Rightarrow> ('a \<Rightarrow> exn + 'b) \<Rightarrow> exn + 'b" where
  "then_E a f = (case a of Inl e \<Rightarrow> Inl e | Inr v \<Rightarrow> f v)"

text \<open>\<^verbatim>\<open>model_response['output']['message']['content'][0]['text']\<close>\<close>

definition response_text :: "json \<Rightarrow> exn + json" where
  "response_text model_response =
     then_E (subscript_key model_response ''output'') (\<lambda>out.
     then_E (subscript_key out ''message'') (\<lambda>msg.
     then_E (subscript_key msg ''content'') (\<lambda>content.
     then_E (subscript_0 content) (\<lambda>first. subscript_key first ''text''))))"

section \<open>The remote services as a scripted environment\<close>

datatype status = SUBMITTED | PICKED | STARTED | FINISHED | FAILED | ABORTED

text \<open>
  The response of a submission (\<^verbatim>\<open>response['Id']\<close>), a description
  (\<^verbatim>\<open>describe_statement\<close>; \<open>QueryString\<close>, \<open>Error\<close> and \<open>SubStatements\<close> are keys that
  may be absent) and a statement result.
\<close>

record response =
  StatementId :: string

record substatement =
  sub_Status :: "status option"
  sub_Error :: "string option"
  sub_Id :: "string option"

record description =
  Status :: status
  QueryString :: "string option"
  Error :: "string option"
  SubStatements :: "substatement list option"

record stmt_result =
  ColumnMetadata :: "dict list"
  Records :: "dict list list"

datatype call =
    GetStatementResult string
  | DescribeStatement string
  | ExecuteStatement string dict string
  | BatchExecuteStatement "string list" dict string
  | InvokeModel "string option" bool string
  | LlmDebugger string string
  | Sleep nat

text \<open>
  The environment answers the k-th call of an operation with the k-th entry of that
  operation's script, whatever the arguments: every behaviour of the real services on one
  run is one such script. \<open>clock\<close> holds the readings of \<^verbatim>\<open>time.time()\<close> in seconds;
  \<open>trace\<close> logs the calls the program makes, in order: the requests to the services,
  the sleeps, and every entry into \<^verbatim>\<open>llm_debugger\<close> (with the statement and the error
  it is given).
\<close>

record world =
  statement_results :: "(exn + stmt_result) list"
  descriptions :: "(exn + description) list"
  submissions :: "(exn + response) list"
  completions :: "(exn + json) list"
  clock :: "int list"
  trace :: "call list"

definition log_call :: "call \<Rightarrow> world \<Rightarrow> world" where
  "log_call c w = w\<lparr>trace := trace w @ [c]\<rparr>"

definition sleep :: "nat \<Rightarrow> world \<Rightarrow> world" where
  "sleep n w = log_call (Sleep n) w"


definition get_statement_result :: "string \<Rightarrow> world \<Rightarrow> stmt_result outcome \<times> world" where
  "get_statement_result sid w =
     (case statement_results w of
        [] \<Rightarrow> (NoResponse, log_call (GetStatementResult sid) w)
      | a # rest \<Rightarrow> (answer a, log_call (GetStatementResult sid) (w\<lparr>statement_results := rest\<rparr>)))"

definition describe_statement :: "string \<Rightarrow> world \<Rightarrow> description outcome \<times> world" where
  "describe_statement sid w =
     (case descriptions w of
        [] \<Rightarrow> (NoResponse, log_call (DescribeStatement sid) w)
      | a # rest \<Rightarrow> (answer a, log_call (DescribeStatement sid) (w\<lparr>descriptions := rest\<rparr>)))"

definition execute_statement :: "string \<Rightarrow> dict \<Rightarrow> string \<Rightarrow> world \<Rightarrow> response outcome \<times> world" where
  "execute_statement sql conn_param database w =
     (case submissions w of
        [] \<Rightarrow> (NoResponse, log_call (ExecuteStatement sql conn_param database) w)
      | a # rest \<Rightarrow> (answer a, log_call (ExecuteStatement sql conn_param database) (w\<lparr>submissions := rest\<rparr>)))"


section \<open>bedrock\_utils: the completion service adapter\<close>

text \<open>
  \<open>call_bedrock\<close> is \<^verbatim>\<open>_call_bedrock\<close>: the payload wraps the prompt as the single user
  message, the answer is the parsed JSON body or the provider's exception.
\<close>

definition call_bedrock :: "string \<Rightarrow> string option \<Rightarrow> bool \<Rightarrow> world \<Rightarrow> json outcome \<times> world" where
  "call_bedrock prompts modelId encode w =
     (case completions w of
        [] \<Rightarrow> (NoResponse, log_call (InvokeModel modelId encode prompts) w)
      | a # rest \<Rightarrow> (answer a, log_call (InvokeModel modelId encode prompts) (w\<lparr>completions := rest\<rparr>)))"

definition query_llm :: "string \<Rightarrow> string option \<Rightarrow> world \<Rightarrow> json outcome \<times> world" where
  "query_llm prompts modelId =
     bind (call_bedrock prompts modelId False) (\<lambda>model_response. pure (response_text model_response))"

fun is_KeyError_or_IndexError :: "exn \<Rightarrow> bool" where
  "is_KeyError_or_IndexError (KeyError m) = True"
| "is_KeyError_or_IndexError (IntKeyError i) = True"
| "is_KeyError_or_IndexError (IndexError m) = True"
| "is_KeyError_or_IndexError e = False"

text \<open>
  \<open>py_str\<close> is Python's \<^verbatim>\<open>str\<close> of the parsed response, used by the f-string of the
  diagnostic; it is a parameter.
\<close>

definition qna_llm :: "(json \<Rightarrow> string) \<Rightarrow> string \<Rightarrow> string option \<Rightarrow> world \<Rightarrow> json outcome \<times> world" where
  "qna_llm py_str prompts modelId =
     bind (call_bedrock prompts modelId True) (\<lambda>model_response.
       case response_text model_response of
         Inr text \<Rightarrow> pure (Inr text)
       | Inl e \<Rightarrow>
           if is_KeyError_or_IndexError e
           then pure (Inr (JStr (''Unexpected response format: '' @ py_str model_response)))
           else pure (Inl e))"

text \<open>
  The debugging prompt of \<^verbatim>\<open>llm_debugger\<close>: the f-string interpolates, in this order,
  \<^verbatim>\<open>params['schema']\<close>, \<^verbatim>\<open>params['sample']\<close>, the statement, the error and
  \<^verbatim>\<open>params['prompt']\<close>. The fixed instruction wording between the fields is abridged
  to its headings here.
\<close>

definition debugger_prompt :: "string \<Rightarrow> string \<Rightarrow> string \<Rightarrow> string \<Rightarrow> string \<Rightarrow> string" where
  "debugger_prompt schema sample statement error intent =
     ''You are a PostgreSQL developer who is an expert at debugging errors. ''
     @ ''Here are the schema definition of table(s): '' @ schema
     @ '' Here are example records for each table: '' @ sample
     @ '' Here is the sql statement that threw the error below: '' @ statement
     @ '' Here is the error to debug: '' @ error
     @ '' Here is the intent of the user: '' @ intent
     @ '' Format your response as: <sql> Correct SQL Statement </sql>''"

definition llm_debugger :: "string \<Rightarrow> string \<Rightarrow> dict \<Rightarrow> world \<Rightarrow> string outcome \<times> world" where
  "llm_debugger statement error params w =
     bind (pure (getitem params ''schema'')) (\<lambda>schema.
     bind (pure (getitem params ''sample'')) (\<lambda>sample.
     bind (pure (getitem params ''prompt'')) (\<lambda>intent.
     bind (query_llm (debugger_prompt schema sample statement error intent) None) (\<lambda>answer.
       case answer of
         JStr s \<Rightarrow> pure (Inr (remove_backslashes s))
       | _ \<Rightarrow> pure (Inl (AttributeError
           (py_repr (py_type_name answer) @ '' object has no attribute '' @ py_repr ''replace'')))))))
     (log_call (LlmDebugger statement error) w)"

section \<open>redshift\_utils: the statement executor\<close>

definition execute_query_redshift :: "string \<Rightarrow> dict \<Rightarrow> string \<Rightarrow> world \<Rightarrow> response outcome \<times> world" where
  "execute_query_redshift sql conn_param database = execute_statement sql conn_param database"

text \<open>
  \<^verbatim>\<open>get_redshift_table_result\<close>: the column names, then for every cell the first value
  of its typed-value wrapper, then the frame's CSV text. \<open>to_csv\<close> stands for
  \<^verbatim>\<open>pd.DataFrame(data, columns=cols).to_csv(index=False)\<close>, a parameter.
\<close>

type_synonym frame_to_csv = "string list list \<Rightarrow> string list \<Rightarrow> exn + string"

definition first_value :: "dict \<Rightarrow> exn + string" where
  "first_value v = py_index (map snd v) 0"

definition get_redshift_table_result :: "frame_to_csv \<Rightarrow> stmt_result \<Rightarrow> exn + string" where
  "get_redshift_table_result to_csv response =
     then_E (mapE (\<lambda>c. getitem c ''name'') (ColumnMetadata response)) (\<lambda>cols.
     then_E (mapE (mapE first_value) (Records response)) (\<lambda>data.
       to_csv data cols))"

definition running :: "status \<Rightarrow> bool" where
  "running s = (s = SUBMITTED \<or> s = PICKED \<or> s = STARTED)"

lemma describe_statement_pops:
  "(Return d, w') = describe_statement sid w \<Longrightarrow> length (descriptions w') < length (descriptions w)"
  by (auto simp: describe_statement_def log_call_def split: list.splits)








section \<open>redshift\_utils: the self-correcting query runner\<close>

text \<open>The two polling loops of \<^verbatim>\<open>redshift_querys\<close>; they differ in the delay only.\<close>

function poll :: "nat \<Rightarrow> string \<Rightarrow> status \<Rightarrow> world \<Rightarrow> status outcome \<times> world" where
  "poll delay sid status w =
     (if running status
      then (case describe_statement sid (sleep delay w) of
              (Return d, w') \<Rightarrow> poll delay sid (Status d) w'
            | (Raise e, w') \<Rightarrow> (Raise e, w')
            | (NoResponse, w') \<Rightarrow> (NoResponse, w'))
      else (Return status, w))"
  by pat_completeness auto
termination
  by (relation "measure (\<lambda>(delay, sid, status, w). length (descriptions w))")
     (auto simp: sleep_def log_call_def dest!: describe_statement_pops)

declare poll.simps [simp del]

text \<open>
  \<^verbatim>\<open>cql.split('<sql>')[1].split('</sql>')[0].strip()\<close>
\<close>

definition extract_repaired_sql :: "string \<Rightarrow> exn + string" where
  "extract_repaired_sql cql =
     then_E (py_index (py_split ''<sql>'' cql) 1) (\<lambda>piece.
     then_E (py_index (py_split ''</sql>'' piece) 0) (\<lambda>sql. Inr (py_strip sql)))"

text \<open>
  The repair loop \<^verbatim>\<open>while max_try > 0 and status == 'FAILED'\<close>. Its state is
  \<open>max_try\<close>, \<open>status\<close>, \<open>desc\<close>, \<open>response\<close> and \<open>q_s\<close>; it ends in the state it left
  the loop with (\<open>desc\<close> is not read after the loop).
\<close>

fun repair_loop :: "nat \<Rightarrow> status \<Rightarrow> description \<Rightarrow> response \<Rightarrow> string \<Rightarrow> dict \<Rightarrow> dict \<Rightarrow> string \<Rightarrow> world
    \<Rightarrow> (nat \<times> status \<times> response \<times> string) outcome \<times> world" where
  "repair_loop 0 status desc response q_s params conn_param database w =
     (Return (0, status, response, q_s), w)"
| "repair_loop (Suc n) status desc response q_s params conn_param database w =
     (if status \<noteq> FAILED then (Return (Suc n, status, response, q_s), w)
      else
        bind (pure (case QueryString desc of None \<Rightarrow> Inl (KeyError ''QueryString'') | Some s \<Rightarrow> Inr s)) (\<lambda>bad_sql.
        bind (pure (case Error desc of None \<Rightarrow> Inl (KeyError ''Error'') | Some s \<Rightarrow> Inr s)) (\<lambda>error.
        bind (llm_debugger bad_sql error params) (\<lambda>cql.
        bind (pure (extract_repaired_sql cql)) (\<lambda>q_s'.
        bind (execute_query_redshift q_s' conn_param database) (\<lambda>response'.
        bind (describe_statement (StatementId response')) (\<lambda>desc'.
        bind (poll 2 (StatementId response') (Status desc')) (\<lambda>status'.
          if status' = FINISHED then (\<lambda>w'. (Return (n, status', response', q_s'), w'))
          else repair_loop n status' desc' response' q_s' params conn_param database))))))) w)"

text \<open>
  The result-fetch loop \<^verbatim>\<open>for _ in range(5)\<close>: \<open>None\<close> when every try raised
  \<open>ResourceNotFoundException\<close>, so that \<^verbatim>\<open>stmt_result\<close> was never assigned.
\<close>

fun is_ResourceNotFound :: "exn \<Rightarrow> bool" where
  "is_ResourceNotFound (ResourceNotFoundException m) = True"
| "is_ResourceNotFound e = False"

fun fetch_result_retry :: "nat \<Rightarrow> string \<Rightarrow> world \<Rightarrow> stmt_result option outcome \<times> world" where
  "fetch_result_retry 0 sid w = (Return None, w)"
| "fetch_result_retry (Suc n) sid w =
     (case get_statement_result sid (sleep 1 w) of
        (Return r, w1) \<Rightarrow> (Return (Some r), w1)
      | (Raise e, w1) \<Rightarrow>
          if is_ResourceNotFound e then fetch_result_retry n sid (sleep 5 w1) else (Raise e, w1)
      | (NoResponse, w1) \<Rightarrow> (NoResponse, w1))"

text \<open>
  The end of \<^verbatim>\<open>redshift_querys\<close> (its last \<^verbatim>\<open>if\<close> and the \<^verbatim>\<open>return\<close>). On the fast
  path \<^verbatim>\<open>status\<close> is unbound (\<open>None\<close>), and is not read since \<^verbatim>\<open>max_try\<close> is 5.
\<close>

definition debug_count :: nat where
  "debug_count = 5"

definition exhausted_text :: string where
  "exhausted_text = ''DEBUGGING FAILED IN '' @ str_nat debug_count @ '' ATTEMPTS. NO RESULT AVAILABLE''"

definition result_pair :: "frame_to_csv \<Rightarrow> nat \<Rightarrow> status option \<Rightarrow> stmt_result option \<Rightarrow> string \<Rightarrow> exn + string \<times> string" where
  "result_pair to_csv max_try status stmt_result q_s =
     (if max_try = 0 \<and> status = None then Inl (UnboundLocalError ''status'')
      else if max_try = 0 \<and> status = Some FAILED then Inr (exhausted_text, q_s)
      else case stmt_result of
          None \<Rightarrow> Inl (UnboundLocalError ''stmt_result'')
        | Some r \<Rightarrow> then_E (get_redshift_table_result to_csv r) (\<lambda>result_csv. Inr (result_csv, q_s)))"

text \<open>
  The handler of \<open>ResourceNotFoundException\<close>: \<open>repair_phase\<close> is the first describe,
  the first polling loop and the repair loop; \<open>slow_path\<close> adds the result fetch and the
  return.
\<close>

definition repair_phase :: "string \<Rightarrow> response \<Rightarrow> dict \<Rightarrow> dict \<Rightarrow> string \<Rightarrow> world
    \<Rightarrow> (nat \<times> status \<times> response \<times> string) outcome \<times> world" where
  "repair_phase q_s response params conn_param database =
     bind (describe_statement (StatementId response)) (\<lambda>desc.
     bind (poll 1 (StatementId response) (Status desc)) (\<lambda>status.
       repair_loop 5 status desc response q_s params conn_param database))"

definition slow_path :: "frame_to_csv \<Rightarrow> string \<Rightarrow> response \<Rightarrow> dict \<Rightarrow> dict \<Rightarrow> string \<Rightarrow> world \<Rightarrow> (string \<times> string) outcome \<times> world" where
  "slow_path to_csv q_s response params conn_param database =
     bind (repair_phase q_s response params conn_param database) (\<lambda>(max_try, status, response', q_s').
     bind (if max_try = 0 \<and> status = FAILED then (\<lambda>w. (Return None, w))
           else fetch_result_retry 5 (StatementId response')) (\<lambda>stmt_result.
       pure (result_pair to_csv max_try (Some status) stmt_result q_s')))"

definition redshift_querys :: "frame_to_csv \<Rightarrow> string \<Rightarrow> response \<Rightarrow> dict \<Rightarrow> dict \<Rightarrow> string \<Rightarrow> world \<Rightarrow> (string \<times> string) outcome \<times> world" where
  "redshift_querys to_csv q_s response params conn_param database w =
     (case get_statement_result (StatementId response) w of
        (Return stmt_result, w1) \<Rightarrow> pure (result_pair to_csv 5 None (Some stmt_result) q_s) w1
      | (Raise e, w1) \<Rightarrow>
          if is_ResourceNotFound e then slow_path to_csv q_s response params conn_param database w1
          else (Raise e, w1)
      | (NoResponse, w1) \<Rightarrow> (NoResponse, w1))"

section \<open>langgraph\_agent: the SQL tools\<close>




definition SQL_MODEL_ID :: string where
  "SQL_MODEL_ID = ''amazon.nova-pro-v1:0''"



text \<open>
  \<^verbatim>\<open>quick_test_sql\<close>. The module constants \<^verbatim>\<open>CONNECTION_PARAM\<close> and \<^verbatim>\<open>DATABASE\<close> are read
  from the process environment; they are arguments here. So is \<open>upper\<close>, Python's
  \<^verbatim>\<open>str.upper\<close> with its Unicode case mapping. The success message ends in a check mark
  (U+2713).
\<close>

definition valid_message :: string where
  "valid_message = ''SQL is valid '' @ [CHR 0xE2, CHR 0x9C, CHR 0x93]"

definition test_query_of :: "(string \<Rightarrow> string) \<Rightarrow> string \<Rightarrow> string" where
  "test_query_of upper sql_query =
     (let test_query = py_strip sql_query
      in if \<not> sublist ''LIMIT'' (upper test_query) then test_query @ '' LIMIT 1'' else test_query)"

definition quick_test_sql :: "(string \<Rightarrow> string) \<Rightarrow> dict \<Rightarrow> string \<Rightarrow> string \<Rightarrow> world \<Rightarrow> string outcome \<times> world" where
  "quick_test_sql upper CONNECTION_PARAM DATABASE sql_query w =
     (case execute_query_redshift (test_query_of upper sql_query) CONNECTION_PARAM DATABASE w of
        (Return resp, w1) \<Rightarrow> (Return valid_message, w1)
      | (Raise e, w1) \<Rightarrow> (Return (''SQL Failed: '' @ exn_str e), w1)
      | (NoResponse, w1) \<Rightarrow> (NoResponse, w1))"

section \<open>langgraph\_agent: the graph state and its nodes\<close>

text \<open>
  A message of the conversation. \<open>name\<close> is \<open>None\<close> for a message without a name;
  a tool message carries the name of the tool that produced it.
\<close>

datatype role = Human | AI | Tool | System

record message =
  role :: role
  name :: "string option"
  content :: string
  tool_calls :: "(string \<times> dict) list"

text \<open>
  \<^verbatim>\<open>CustomState\<close>: \<^verbatim>\<open>schema_info\<close> and \<^verbatim>\<open>sample_data\<close> are \<^verbatim>\<open>NotRequired\<close> keys,
  \<open>None\<close> when absent. \<open>get_or_empty\<close> is \<^verbatim>\<open>state.get(key, "")\<close>.
\<close>

record state =
  messages :: "message list"
  schema_info :: "string option"
  sample_data :: "string option"

definition get_or_empty :: "string option \<Rightarrow> string" where
  "get_or_empty v = (case v of None \<Rightarrow> [] | Some s \<Rightarrow> s)"

text \<open>
  What a node returns: the keys it sets (\<open>None\<close> for a key it leaves out). The graph
  merges it into the state: new messages are appended, a set key replaces the old value.
\<close>

record update =
  upd_messages :: "message list"
  upd_schema_info :: "string option"
  upd_sample_data :: "string option"

definition apply_update :: "state \<Rightarrow> update \<Rightarrow> state" where
  "apply_update s u =
     \<lparr>messages = messages s @ upd_messages u,
      schema_info = (case upd_schema_info u of None \<Rightarrow> schema_info s | Some v \<Rightarrow> Some v),
      sample_data = (case upd_sample_data u of None \<Rightarrow> sample_data s | Some v \<Rightarrow> Some v)\<rparr>"

text \<open>
  The model bound to the tools and the \<^verbatim>\<open>ToolNode\<close> are scripted as the services are.
\<close>

record graph_world =
  model_replies :: "(exn + message) list"
  tool_runs :: "(exn + message list) list"

definition llm_invoke :: "message list \<Rightarrow> graph_world \<Rightarrow> message outcome \<times> graph_world" where
  "llm_invoke msgs g =
     (case model_replies g of
        [] \<Rightarrow> (NoResponse, g)
      | a # rest \<Rightarrow> (answer a, g\<lparr>model_replies := rest\<rparr>))"

definition tool_node_invoke :: "state \<Rightarrow> graph_world \<Rightarrow> message list outcome \<times> graph_world" where
  "tool_node_invoke s g =
     (case tool_runs g of
        [] \<Rightarrow> (NoResponse, g)
      | a # rest \<Rightarrow> (answer a, g\<lparr>tool_runs := rest\<rparr>))"

definition should_continue :: "state \<Rightarrow> exn + string" where
  "should_continue s =
     (case messages s of
        [] \<Rightarrow> Inl (IndexError ''list index out of range'')
      | _ \<Rightarrow> if tool_calls (last (messages s)) = [] then Inr ''end'' else Inr ''continue'')"

text \<open>
  \<^verbatim>\<open>call_model\<close>: the system message shows the first 200 characters of each cached text
  (its fixed workflow wording is left out); the node returns the model's reply as the only
  new message.
\<close>

definition system_message :: "state \<Rightarrow> message" where
  "system_message s =
     (let cached_schema = get_or_empty (schema_info s); cached_sample = get_or_empty (sample_data s)
      in \<lparr>role = System, name = None,
          content = ''You are a Text-to-SQL expert assistant. Cached Schema: ''
            @ (if cached_schema \<noteq> [] then take 200 cached_schema else ''Not loaded'')
            @ '' Cached Sample Data: ''
            @ (if cached_sample \<noteq> [] then take 200 cached_sample else ''Not loaded''),
          tool_calls = []\<rparr>)"

definition call_model :: "state \<Rightarrow> graph_world \<Rightarrow> update outcome \<times> graph_world" where
  "call_model s =
     bind (llm_invoke (system_message s # messages s)) (\<lambda>response.
       pure (Inr \<lparr>upd_messages = [response], upd_schema_info = None, upd_sample_data = None\<rparr>))"

text \<open>
  \<^verbatim>\<open>tools_with_state_update\<close>: \<open>scan_tool_messages\<close> is its \<^verbatim>\<open>for msg in
  result["messages"]\<close> loop over the two entries of \<^verbatim>\<open>updates\<close>.
\<close>

fun scan_tool_messages :: "message list \<Rightarrow> string \<times> string \<Rightarrow> string \<times> string" where
  "scan_tool_messages [] (schema, sample) = (schema, sample)"
| "scan_tool_messages (msg # msgs) (schema, sample) =
     (if name msg = Some ''get_database_schema'' then scan_tool_messages msgs (content msg, sample)
      else if name msg = Some ''get_sample_data'' then scan_tool_messages msgs (schema, content msg)
      else scan_tool_messages msgs (schema, sample))"

definition updates_of :: "state \<Rightarrow> message list \<Rightarrow> update" where
  "updates_of s result_messages =
     (case scan_tool_messages result_messages (get_or_empty (schema_info s), get_or_empty (sample_data s)) of
        (schema, sample) \<Rightarrow>
          \<lparr>upd_messages = result_messages, upd_schema_info = Some schema, upd_sample_data = Some sample\<rparr>)"

definition tools_with_state_update :: "state \<Rightarrow> graph_world \<Rightarrow> update outcome \<times> graph_world" where
  "tools_with_state_update s =
     bind (tool_node_invoke s) (\<lambda>result_messages. pure (Inr (updates_of s result_messages)))"

text \<open>
  The graph as it is wired: entry point \<^verbatim>\<open>agent\<close>; from \<^verbatim>\<open>agent\<close> to \<^verbatim>\<open>tools\<close> on
  \<^verbatim>\<open>continue\<close> and to the end on \<^verbatim>\<open>end\<close>; from \<^verbatim>\<open>tools\<close> back to \<^verbatim>\<open>agent\<close>. One
  round of \<open>run_graph\<close> is one iteration of the control loop. (The framework's
  recursion limit is not modelled; a run whose script ends is \<open>NoResponse\<close>.)
\<close>

lemma llm_invoke_pops:
  "(Return r, g') = llm_invoke msgs g \<Longrightarrow> length (model_replies g') < length (model_replies g)"
  by (auto simp: llm_invoke_def split: list.splits)

lemma tool_node_keeps_replies:
  "(r, g') = tool_node_invoke s g \<Longrightarrow> model_replies g' = model_replies g"
  by (auto simp: tool_node_invoke_def split: list.splits)

function run_graph :: "state \<Rightarrow> graph_world \<Rightarrow> state outcome \<times> graph_world" where
  "run_graph s g =
     (case llm_invoke (system_message s # messages s) g of
        (Return response, g1) \<Rightarrow>
          (let s1 = apply_update s \<lparr>upd_messages = [response], upd_schema_info = None, upd_sample_data = None\<rparr>
           in if tool_calls response = [] then (Return s1, g1)
              else (case tool_node_invoke s1 g1 of
                      (Return result_messages, g2) \<Rightarrow> run_graph (apply_update s1 (updates_of s1 result_messages)) g2
                    | (Raise e, g2) \<Rightarrow> (Raise e, g2)
                    | (NoResponse, g2) \<Rightarrow> (NoResponse, g2)))
      | (Raise e, g1) \<Rightarrow> (Raise e, g1)
      | (NoResponse, g1) \<Rightarrow> (NoResponse, g1))"
  by pat_completeness auto
termination
  by (relation "measure (\<lambda>(s, g). length (model_replies g))")
     (auto dest!: llm_invoke_pops tool_node_keeps_replies)

declare run_graph.simps [simp del]

section \<open>langgraph\_agent: the session store and the entry point\<close>

text \<open>
  The compiled graph \<^verbatim>\<open>app\<close> with its checkpointer is scripted: \<^verbatim>\<open>app.get_state\<close>
  answers with a snapshot (or a falsy value, \<open>None\<close>) or raises; \<^verbatim>\<open>app.invoke\<close> answers
  with the final state of the turn or raises. The trace logs each invocation with the
  payload's two cached texts, each sleep, and each load from the store with the cache it
  returned.
\<close>

record cache =
  cached_schema_info :: string
  cached_sample_data :: string

record snapshot =
  snapshot_values :: dict

datatype app_call =
    Invoke string cache string string
  | Loaded string string cache
  | AppSleep nat

record app_world =
  get_state_answers :: "(exn + snapshot option) list"
  invoke_answers :: "(exn + state) list"
  app_trace :: "app_call list"

definition empty_cache :: cache where
  "empty_cache = \<lparr>cached_schema_info = [], cached_sample_data = []\<rparr>"

definition app_get_state :: "string \<Rightarrow> string \<Rightarrow> app_world \<Rightarrow> snapshot option outcome \<times> app_world" where
  "app_get_state thread_id actor_id a =
     (case get_state_answers a of
        [] \<Rightarrow> (NoResponse, a)
      | x # rest \<Rightarrow> (answer x, a\<lparr>get_state_answers := rest\<rparr>))"

definition app_invoke :: "string \<Rightarrow> cache \<Rightarrow> string \<Rightarrow> string \<Rightarrow> app_world \<Rightarrow> state outcome \<times> app_world" where
  "app_invoke question payload thread_id actor_id a =
     (case invoke_answers a of
        [] \<Rightarrow> (NoResponse, a\<lparr>app_trace := app_trace a @ [Invoke question payload thread_id actor_id]\<rparr>)
      | x # rest \<Rightarrow> (answer x, a\<lparr>invoke_answers := rest,
                                  app_trace := app_trace a @ [Invoke question payload thread_id actor_id]\<rparr>))"

definition app_sleep :: "nat \<Rightarrow> app_world \<Rightarrow> app_world" where
  "app_sleep n a = a\<lparr>app_trace := app_trace a @ [AppSleep n]\<rparr>"

text \<open>
  \<^verbatim>\<open>get_previous_state\<close>: every exception of the lookup is caught (and logged); the result
  is the cache of the snapshot when the snapshot and its values are truthy, the empty cache
  otherwise.
\<close>

definition cache_of_answer :: "snapshot option outcome \<Rightarrow> cache" where
  "cache_of_answer r =
     (case r of
        Return (Some saved_state) \<Rightarrow>
          if snapshot_values saved_state \<noteq> []
          then \<lparr>cached_schema_info = dict_get (snapshot_values saved_state) ''schema_info'' [],
                cached_sample_data = dict_get (snapshot_values saved_state) ''sample_data'' []\<rparr>
          else empty_cache
      | _ \<Rightarrow> empty_cache)"

definition get_previous_state :: "string \<Rightarrow> string \<Rightarrow> app_world \<Rightarrow> cache outcome \<times> app_world" where
  "get_previous_state thread_id actor_id a =
     (case app_get_state thread_id actor_id a of
        (NoResponse, a1) \<Rightarrow> (NoResponse, a1)
      | (r, a1) \<Rightarrow> (Return (cache_of_answer r),
                     a1\<lparr>app_trace := app_trace a1 @ [Loaded thread_id actor_id (cache_of_answer r)]\<rparr>))"

definition max_retries :: nat where
  "max_retries = 3"

fun is_throttling :: "exn \<Rightarrow> bool" where
  "is_throttling (ClientError code m) = (code = ''ThrottlingException'')"
| "is_throttling e = False"

text \<open>
  The loop \<^verbatim>\<open>for attempt in range(max_retries + 1)\<close> of \<^verbatim>\<open>invoke_agent\<close>, over the
  attempts still to make; the empty list is the loop's \<^verbatim>\<open>else\<close> branch.
\<close>

fun attempt_loop :: "nat list \<Rightarrow> string \<Rightarrow> cache \<Rightarrow> string \<Rightarrow> string \<Rightarrow> app_world \<Rightarrow> state outcome \<times> app_world" where
  "attempt_loop [] question payload session_id actor_id a = (Raise (RuntimeError ''retry''), a)"
| "attempt_loop (attempt # rest) question payload session_id actor_id a =
     (case app_invoke question payload session_id actor_id a of
        (Return result, a1) \<Rightarrow> (Return result, a1)
      | (Raise e, a1) \<Rightarrow>
          if is_throttling e then
            if attempt = max_retries then (Raise e, a1)
            else (let a2 = app_sleep (2 ^ attempt + 1) a1
                  in if attempt < max_retries
                     then (case get_previous_state session_id actor_id a2 of
                             (Return reloaded_state, a3) \<Rightarrow> attempt_loop rest question reloaded_state session_id actor_id a3
                           | (Raise e', a3) \<Rightarrow> (Raise e', a3)
                           | (NoResponse, a3) \<Rightarrow> (NoResponse, a3))
                     else attempt_loop rest question payload session_id actor_id a2)
          else (Raise e, a1)
      | (NoResponse, a1) \<Rightarrow> (NoResponse, a1))"

definition response_text_of :: "state \<Rightarrow> exn + string" where
  "response_text_of result =
     (case messages result of
        [] \<Rightarrow> Inl (IndexError ''list index out of range'')
      | _ \<Rightarrow> Inr (content (last (messages result))))"

definition invoke_agent :: "string \<Rightarrow> string \<Rightarrow> string \<Rightarrow> bool \<Rightarrow> app_world \<Rightarrow> string outcome \<times> app_world" where
  "invoke_agent question actor_id session_id reset_memory =
     bind (if \<not> reset_memory then get_previous_state session_id actor_id
           else (\<lambda>a. (Return empty_cache, a))) (\<lambda>prev_state.
     bind (attempt_loop [0 ..< max_retries + 1] question prev_state session_id actor_id) (\<lambda>result.
       pure (response_text_of result)))"

section \<open>Counting repairs, and the scripted scenarios of the checks below\<close>

definition debugger_calls :: "call list \<Rightarrow> nat" where
  "debugger_calls tr = length (filter (\<lambda>c. case c of LlmDebugger s e \<Rightarrow> True | _ \<Rightarrow> False) tr)"

definition dcount :: "world \<Rightarrow> nat" where
  "dcount w = debugger_calls (trace w)"

definition adds_at_most :: "nat \<Rightarrow> (world \<Rightarrow> 'a outcome \<times> world) \<Rightarrow> bool" where
  "adds_at_most k m = (\<forall>w. dcount (snd (m w)) \<le> dcount w + k)"

definition failed_desc :: description where
  "failed_desc = \<lparr>Status = FAILED, QueryString = Some ''SELECT x FROM t'',
     Error = Some ''column x does not exist'', SubStatements = None\<rparr>"

definition completion_of :: "string \<Rightarrow> json" where
  "completion_of text =
     JObj [(''output'', JObj [(''message'', JObj [(''content'', JArr [JObj [(''text'', JStr text)]])])])]"

definition demo_params :: dict where
  "demo_params = [(''schema'', ''t(x)''), (''sample'', ''1''), (''prompt'', ''all x'')]"

definition demo_conn :: dict where
  "demo_conn = [(''WorkgroupName'', ''wg'')]"

definition plain_csv :: frame_to_csv where
  "plain_csv data cols = Inr (concat cols)"

text \<open>The engine fails the statement and each of the five repaired statements.\<close>

definition always_failing :: world where
  "always_failing = \<lparr>statement_results = [Inl (ResourceNotFoundException ''not found'')],
     descriptions = replicate 6 (Inr failed_desc),
     submissions = replicate 5 (Inr \<lparr>StatementId = ''s1''\<rparr>),
     completions = replicate 5 (Inr (completion_of ''<sql>SELECT 1</sql>'')),
     clock = [], trace = []\<rparr>"

text \<open>
  A script on which no description ever reports \<open>FAILED\<close>, and the positions of the world
  after the first result fetch and after the repair phase.
\<close>

fun answers_failed :: "exn + description \<Rightarrow> bool" where
  "answers_failed (Inl e) = False"
| "answers_failed (Inr d) = (Status d = FAILED)"

definition never_failed :: "world \<Rightarrow> bool" where
  "never_failed w = list_all (\<lambda>a. \<not> answers_failed a) (descriptions w)"





definition one_row :: stmt_result where
  "one_row = \<lparr>ColumnMetadata = [[(''name'', ''x'')]], Records = [[[(''longValue'', ''1'')]]]\<rparr>"

definition desc_with :: "status \<Rightarrow> description" where
  "desc_with s = \<lparr>Status = s, QueryString = Some ''SELECT x FROM t'', Error = None, SubStatements = None\<rparr>"

text \<open>The statement is still running at the first describe and then finishes.\<close>

definition finishing :: world where
  "finishing = \<lparr>statement_results = [Inl (ResourceNotFoundException ''not found''), Inr one_row],
     descriptions = [Inr (desc_with STARTED), Inr (desc_with FINISHED)],
     submissions = [], completions = [], clock = [], trace = []\<rparr>"





fun is_sleep :: "call \<Rightarrow> bool" where
  "is_sleep (Sleep n) = True"
| "is_sleep c = False"

definition requests :: "call list \<Rightarrow> call list" where
  "requests tr = filter (\<lambda>c. \<not> is_sleep c) tr"

definition extends_with :: "(call \<Rightarrow> bool) \<Rightarrow> world \<Rightarrow> world \<Rightarrow> bool" where
  "extends_with P w w' = (\<exists>ext. trace w' = trace w @ ext \<and> list_all P ext)"









text \<open>
  A response envelope with a key missing or an empty content list, in the spec's words:
  on the way down \<^verbatim>\<open>['output']['message']['content'][0]['text']\<close> an object lacks
  the key asked of it, or the content list is empty.
\<close>

definition missing_key :: "json \<Rightarrow> string \<Rightarrow> bool" where
  "missing_key j k = (case j of JObj kvs \<Rightarrow> map_of kvs k = None | _ \<Rightarrow> False)"

definition malformed_envelope :: "json \<Rightarrow> bool" where
  "malformed_envelope model_response =
     (case subscript_key model_response ''output'' of
        Inl e \<Rightarrow> missing_key model_response ''output''
      | Inr out \<Rightarrow>
     (case subscript_key out ''message'' of
        Inl e \<Rightarrow> missing_key out ''message''
      | Inr msg \<Rightarrow>
     (case subscript_key msg ''content'' of
        Inl e \<Rightarrow> missing_key msg ''content''
      | Inr cnt \<Rightarrow>
     (case subscript_0 cnt of
        Inl e \<Rightarrow> cnt = JArr []
      | Inr first \<Rightarrow> missing_key first ''text''))))"


definition empty_world :: world where
  "empty_world = \<lparr>statement_results = [], descriptions = [], submissions = [], completions = [],
     clock = [], trace = []\<rparr>"

definition no_content :: json where
  "no_content = JObj [(''output'', JObj [(''message'', JObj [(''content'', JArr [])])])]"

text \<open>
  Containing a word whatever the case of its letters: some stretch of the text is the word
  once both are put in upper case.
\<close>

definition upper_char :: "char \<Rightarrow> char" where
  "upper_char c = (let n = (of_char c :: nat) in if 97 \<le> n \<and> n \<le> 122 then char_of (n - 32) else c)"

definition ascii_upper :: "string \<Rightarrow> string" where
  "ascii_upper s = map upper_char s"

definition contains_ignoring_case :: "string \<Rightarrow> string \<Rightarrow> bool" where
  "contains_ignoring_case word s = (\<exists>before u after. s = before @ u @ after \<and> ascii_upper u = ascii_upper word)"


text \<open>The submission is accepted; the statement fails afterwards.\<close>

definition accepted_then_failing :: world where
  "accepted_then_failing = empty_world\<lparr>submissions := [Inr \<lparr>StatementId = ''s0''\<rparr>],
     descriptions := [Inr failed_desc]\<rparr>"

text \<open>The submission itself is refused.\<close>

definition rejected_text :: string where
  "rejected_text = ''An error occurred (ValidationException) when calling the ExecuteStatement operation: ''
     @ ''Workgroup is not found''"

definition rejected_at_submission :: world where
  "rejected_at_submission = empty_world\<lparr>submissions := [Inl (ClientError ''ValidationException'' rejected_text)]\<rparr>"







text \<open>
  Tool messages by the tool that produced them, and scripts of the tool node on which a
  given kind of message never occurs.
\<close>

definition names_schema_tool :: "message \<Rightarrow> bool" where
  "names_schema_tool m = (name m = Some ''get_database_schema'')"

definition names_sample_tool :: "message \<Rightarrow> bool" where
  "names_sample_tool m = (name m = Some ''get_sample_data'')"

definition other_tools :: "string list" where
  "other_tools = [''generate_sql_with_context'', ''quick_test_sql'', ''query_existing_table'']"

definition from_other_tool :: "message \<Rightarrow> bool" where
  "from_other_tool m = (name m \<in> set (map Some other_tools))"

fun run_without :: "(message \<Rightarrow> bool) \<Rightarrow> exn + message list \<Rightarrow> bool" where
  "run_without P (Inl e) = True"
| "run_without P (Inr msgs) = list_all (\<lambda>m. \<not> P m) msgs"

definition never_runs :: "(message \<Rightarrow> bool) \<Rightarrow> graph_world \<Rightarrow> bool" where
  "never_runs P g = list_all (run_without P) (tool_runs g)"


definition tool_message :: "string \<Rightarrow> string \<Rightarrow> message" where
  "tool_message tool text = \<lparr>role = Tool, name = Some tool, content = text, tool_calls = []\<rparr>"

definition ai_message :: "string \<Rightarrow> (string \<times> dict) list \<Rightarrow> message" where
  "ai_message text calls = \<lparr>role = AI, name = None, content = text, tool_calls = calls\<rparr>"

definition cached_state :: state where
  "cached_state = \<lparr>messages = [\<lparr>role = Human, name = None, content = ''top products'', tool_calls = []\<rparr>],
     schema_info = Some ''t(x)'', sample_data = Some ''1''\<rparr>"

text \<open>A turn that generates, tests and runs a query, then answers.\<close>

definition sql_only_turn :: graph_world where
  "sql_only_turn = \<lparr>model_replies =
       [Inr (ai_message [] [(''generate_sql_with_context'', [(''question'', ''top products'')])]),
        Inr (ai_message [] [(''quick_test_sql'', [(''sql_query'', ''SELECT x FROM t'')]),
                            (''query_existing_table'', [(''sql_query'', ''SELECT x FROM t'')])]),
        Inr (ai_message ''Here are the products.'' [])],
     tool_runs =
       [Inr [tool_message ''generate_sql_with_context'' ''SELECT x FROM t''],
        Inr [tool_message ''quick_test_sql'' valid_message, tool_message ''query_existing_table'' ''x'']]\<rparr>"

text \<open>
  Reading the trace of the entry point: its invocations of the graph, the seconds slept,
  the calls one run added, and what follows the first invocation. \<open>retries_reloaded\<close>
  holds of what follows an invocation when each further invocation comes after a sleep and
  a load from the store and carries exactly the cache that load returned.
\<close>

fun is_invoke :: "app_call \<Rightarrow> bool" where
  "is_invoke (Invoke q p t a) = True"
| "is_invoke c = False"

fun sleep_seconds :: "app_call \<Rightarrow> nat list" where
  "sleep_seconds (AppSleep n) = [n]"
| "sleep_seconds c = []"

definition sleeps :: "app_call list \<Rightarrow> nat list" where
  "sleeps tr = concat (map sleep_seconds tr)"

definition new_calls :: "app_world \<Rightarrow> app_world \<Rightarrow> app_call list" where
  "new_calls w w' = drop (length (app_trace w)) (app_trace w')"

definition after_first_invoke :: "app_call list \<Rightarrow> app_call list" where
  "after_first_invoke tr = drop 1 (dropWhile (\<lambda>c. \<not> is_invoke c) tr)"

fun retries_reloaded :: "app_call list \<Rightarrow> bool" where
  "retries_reloaded [] = True"
| "retries_reloaded [AppSleep n] = True"
| "retries_reloaded [AppSleep n, Loaded t a c] = True"
| "retries_reloaded (AppSleep n # Loaded t a c # Invoke q p t' a' # rest) = (p = c \<and> retries_reloaded rest)"
| "retries_reloaded tr = False"

fun no_checkpoint :: "exn + snapshot option \<Rightarrow> bool" where
  "no_checkpoint (Inl e) = True"
| "no_checkpoint (Inr None) = True"
| "no_checkpoint (Inr (Some saved_state)) = (snapshot_values saved_state = [])"


definition backoff :: "nat \<Rightarrow> nat" where
  "backoff attempt = 2 ^ attempt + 1"


definition stored :: cache where
  "stored = \<lparr>cached_schema_info = ''t(x)'', cached_sample_data = ''1''\<rparr>"

definition stored_snapshot :: snapshot where
  "stored_snapshot = \<lparr>snapshot_values = [(''schema_info'', ''t(x)''), (''sample_data'', ''1'')]\<rparr>"

definition answered :: state where
  "answered = \<lparr>messages = [\<lparr>role = AI, name = None, content = ''Done.'', tool_calls = []\<rparr>],
     schema_info = Some ''t(x)'', sample_data = Some ''1''\<rparr>"

text \<open>
  The first invocation is throttled and the second succeeds; the store has no checkpoint
  at first and holds one by the time of the retry.
\<close>

definition throttled_text :: string where
  "throttled_text = ''An error occurred (ThrottlingException) when calling the ConverseStream operation: ''
     @ ''Too many requests''"

definition refused_text :: string where
  "refused_text = ''An error occurred (ValidationException) when calling the ConverseStream operation: ''
     @ ''Malformed input request''"

definition throttled_once :: app_world where
  "throttled_once = \<lparr>get_state_answers = [Inr None, Inr (Some stored_snapshot)],
     invoke_answers = [Inl (ClientError ''ThrottlingException'' throttled_text), Inr answered],
     app_trace = []\<rparr>"

text \<open>The same turn started with \<^verbatim>\<open>reset_memory=True\<close>: the store is asked once, at the retry.\<close>

definition throttled_after_reset :: app_world where
  "throttled_after_reset = \<lparr>get_state_answers = [Inr (Some stored_snapshot)],
     invoke_answers = [Inl (ClientError ''ThrottlingException'' throttled_text), Inr answered],
     app_trace = []\<rparr>"

text \<open>The store is down and the provider refuses the request.\<close>

definition refused :: app_world where
  "refused = \<lparr>get_state_answers = [Inl (OtherException ''store unavailable'')],
     invoke_answers = [Inl (ClientError ''ValidationException'' refused_text)],
     app_trace = []\<rparr>"

section \<open>The repair loop is bounded (C1)\<close>

lemma dcount_simps [simp]:
  "dcount (sleep n w) = dcount w"
  "dcount (w\<lparr>statement_results := a\<rparr>) = dcount w"
  "dcount (w\<lparr>descriptions := b\<rparr>) = dcount w"
  "dcount (w\<lparr>submissions := c\<rparr>) = dcount w"
  "dcount (w\<lparr>completions := d\<rparr>) = dcount w"
  "dcount (w\<lparr>clock := e\<rparr>) = dcount w"
  by (simp_all add: dcount_def sleep_def log_call_def debugger_calls_def)

lemma dcount_log: "dcount (log_call c w) = dcount w + (case c of LlmDebugger s e \<Rightarrow> 1 | _ \<Rightarrow> 0)"
  by (cases c) (simp_all add: dcount_def log_call_def debugger_calls_def)

lemma bind_adds:
  assumes "adds_at_most a m" and "\<And>v. adds_at_most b (f v)"
  shows "adds_at_most (a + b) (bind m f)"
  unfolding adds_at_most_def
proof
  fix w
  obtain r w1 where mw: "m w = (r, w1)" by force
  from assms(1) mw have 1: "dcount w1 \<le> dcount w + a" by (auto simp: adds_at_most_def dest: spec[of _ w])
  show "dcount (snd (bind m f w)) \<le> dcount w + (a + b)"
  proof (cases r)
    case (Return v)
    with mw have "bind m f w = f v w1" by (simp add: bind_def)
    moreover from assms(2)[of v] have "dcount (snd (f v w1)) \<le> dcount w1 + b"
      by (simp add: adds_at_most_def)
    ultimately show ?thesis using 1 by simp
  next
    case (Raise e)
    with mw 1 show ?thesis by (simp add: bind_def)
  next
    case NoResponse
    with mw 1 show ?thesis by (simp add: bind_def)
  qed
qed

lemma bind_adds0:
  "adds_at_most 0 m \<Longrightarrow> (\<And>v. adds_at_most b (f v)) \<Longrightarrow> adds_at_most b (bind m f)"
  using bind_adds[of 0 m b f] by simp

lemma adds_mono: "adds_at_most a m \<Longrightarrow> a \<le> b \<Longrightarrow> adds_at_most b m"
  unfolding adds_at_most_def
proof
  fix w
  assume h: "\<forall>w. dcount (snd (m w)) \<le> dcount w + a" and ab: "a \<le> b"
  from h have "dcount (snd (m w)) \<le> dcount w + a" by blast
  with ab show "dcount (snd (m w)) \<le> dcount w + b" by simp
qed

lemma pure_adds: "adds_at_most 0 (pure a)"
  by (simp add: adds_at_most_def pure_def)

lemma unit_adds: "adds_at_most 0 (\<lambda>w. (r, w))"
  by (simp add: adds_at_most_def)

lemma describe_adds: "adds_at_most 0 (describe_statement sid)"
  by (simp add: adds_at_most_def describe_statement_def dcount_log split: list.splits)

lemma gsr_adds: "adds_at_most 0 (get_statement_result sid)"
  by (simp add: adds_at_most_def get_statement_result_def dcount_log split: list.splits)

lemma exec_adds: "adds_at_most 0 (execute_query_redshift sql cp db)"
  by (simp add: adds_at_most_def execute_query_redshift_def execute_statement_def dcount_log split: list.splits)

lemma bedrock_adds: "adds_at_most 0 (call_bedrock p m e)"
  by (simp add: adds_at_most_def call_bedrock_def dcount_log split: list.splits)

lemma query_llm_adds: "adds_at_most 0 (query_llm p m)"
  unfolding query_llm_def by (intro bind_adds0 bedrock_adds pure_adds)

lemma llm_debugger_adds: "adds_at_most 1 (llm_debugger s e params)"
proof -
  let ?body = "bind (pure (getitem params ''schema'')) (\<lambda>schema.
     bind (pure (getitem params ''sample'')) (\<lambda>sample.
     bind (pure (getitem params ''prompt'')) (\<lambda>intent.
     bind (query_llm (debugger_prompt schema sample s e intent) None) (\<lambda>answer.
       case answer of
         JStr s \<Rightarrow> pure (Inr (remove_backslashes s))
       | _ \<Rightarrow> pure (Inl (AttributeError
           (py_repr (py_type_name answer) @ '' object has no attribute '' @ py_repr ''replace'')))))))"
  have "adds_at_most 0 ?body"
    by (intro bind_adds0 pure_adds query_llm_adds) (simp add: pure_adds split: json.splits)
  then have a: "dcount (snd (?body w')) \<le> dcount w' + 0" for w'
    unfolding adds_at_most_def by blast
  show ?thesis
    unfolding adds_at_most_def llm_debugger_def
  proof
    fix w
    from a[of "log_call (LlmDebugger s e) w"] dcount_log[of "LlmDebugger s e" w]
    show "dcount (snd (?body (log_call (LlmDebugger s e) w))) \<le> dcount w + 1"
      by simp
  qed
qed

lemma poll_adds: "adds_at_most 0 (poll delay sid status)"
  unfolding adds_at_most_def
proof
  fix w
  show "dcount (snd (poll delay sid status w)) \<le> dcount w + 0"
  proof (induction delay sid status w rule: poll.induct)
    case (1 delay sid status w)
    show ?case
    proof (cases "running status")
      case False
      then show ?thesis by (simp add: poll.simps)
    next
      case True
      obtain r w' where d: "describe_statement sid (sleep delay w) = (r, w')" by force
      from describe_adds[of sid] have "dcount (snd (describe_statement sid (sleep delay w))) \<le> dcount (sleep delay w) + 0"
        unfolding adds_at_most_def by blast
      with d have le: "dcount w' \<le> dcount w" by simp
      show ?thesis
      proof (cases r)
        case (Return dsc)
        from 1[OF True] d Return have "dcount (snd (poll delay sid (Status dsc) w')) \<le> dcount w' + 0"
          by simp
        with True d le Return show ?thesis by (simp add: poll.simps[of delay sid status w])
      next
        case (Raise e)
        with True d le show ?thesis by (simp add: poll.simps[of delay sid status w])
      next
        case NoResponse
        with True d le show ?thesis by (simp add: poll.simps[of delay sid status w])
      qed
    qed
  qed
qed

lemma repair_loop_adds: "adds_at_most n (repair_loop n status desc response q_s params cp db)"
proof (induction n arbitrary: status desc response q_s)
  case 0
  show ?case by (simp add: adds_at_most_def)
next
  case (Suc n)
  show ?case
  proof (cases "status = FAILED")
    case False
    then show ?thesis by (simp add: adds_at_most_def)
  next
    case True
    have "adds_at_most (1 + n) (
        bind (pure (case QueryString desc of None \<Rightarrow> Inl (KeyError ''QueryString'') | Some s \<Rightarrow> Inr s)) (\<lambda>bad_sql.
        bind (pure (case Error desc of None \<Rightarrow> Inl (KeyError ''Error'') | Some s \<Rightarrow> Inr s)) (\<lambda>error.
        bind (llm_debugger bad_sql error params) (\<lambda>cql.
        bind (pure (extract_repaired_sql cql)) (\<lambda>q_s'.
        bind (execute_query_redshift q_s' cp db) (\<lambda>response'.
        bind (describe_statement (StatementId response')) (\<lambda>desc'.
        bind (poll 2 (StatementId response') (Status desc')) (\<lambda>status'.
          if status' = FINISHED then (\<lambda>w'. (Return (n, status', response', q_s'), w'))
          else repair_loop n status' desc' response' q_s' params cp db))))))))"
      apply (rule bind_adds0 [OF pure_adds])
      apply (rule bind_adds0 [OF pure_adds])
      apply (rule bind_adds [OF llm_debugger_adds])
      apply (rule bind_adds0 [OF pure_adds])
      apply (rule bind_adds0 [OF exec_adds])
      apply (rule bind_adds0 [OF describe_adds])
      apply (rule bind_adds0 [OF poll_adds])
      apply (auto intro: Suc.IH adds_mono[OF unit_adds])
      done
    then show ?thesis using True by (simp add: adds_at_most_def)
  qed
qed

lemma fetch_adds: "adds_at_most 0 (fetch_result_retry n sid)"
  unfolding adds_at_most_def
proof
  fix w
  show "dcount (snd (fetch_result_retry n sid w)) \<le> dcount w + 0"
  proof (induction n arbitrary: w)
    case 0
    show ?case by simp
  next
    case (Suc n)
    obtain r w1 where g: "get_statement_result sid (sleep 1 w) = (r, w1)" by force
    from gsr_adds[of sid] have "dcount (snd (get_statement_result sid (sleep 1 w))) \<le> dcount (sleep 1 w) + 0"
      unfolding adds_at_most_def by blast
    with g have le: "dcount w1 \<le> dcount w" by simp
    show ?case
    proof (cases r)
      case (Return x)
      with g le show ?thesis by simp
    next
      case (Raise e)
      from Suc[of "sleep 5 w1"] have "dcount (snd (fetch_result_retry n sid (sleep 5 w1))) \<le> dcount w1" by simp
      with Raise g le show ?thesis by simp
    next
      case NoResponse
      with g le show ?thesis by simp
    qed
  qed
qed

lemma repair_phase_adds: "adds_at_most 5 (repair_phase q_s response params cp db)"
  unfolding repair_phase_def
  by (intro bind_adds0 describe_adds poll_adds repair_loop_adds)

lemma slow_path_adds: "adds_at_most 5 (slow_path to_csv q_s response params cp db)"
proof -
  have "adds_at_most (5 + 0) (slow_path to_csv q_s response params cp db)"
    unfolding slow_path_def
    apply (rule bind_adds [OF repair_phase_adds])
    apply (auto intro!: bind_adds0 pure_adds unit_adds fetch_adds)
    done
  then show ?thesis by simp
qed

lemma redshift_querys_adds: "adds_at_most 5 (redshift_querys to_csv q_s response params cp db)"
  unfolding adds_at_most_def
proof
  fix w
  obtain r w1 where g: "get_statement_result (StatementId response) w = (r, w1)" by force
  from gsr_adds[of "StatementId response"] have "dcount (snd (get_statement_result (StatementId response) w)) \<le> dcount w + 0"
    unfolding adds_at_most_def by blast
  with g have le: "dcount w1 \<le> dcount w" by simp
  from slow_path_adds[of to_csv q_s response params cp db]
  have sp: "dcount (snd (slow_path to_csv q_s response params cp db w1)) \<le> dcount w1 + 5"
    unfolding adds_at_most_def by blast
  show "dcount (snd (redshift_querys to_csv q_s response params cp db w)) \<le> dcount w + 5"
    using g le sp by (cases r) (auto simp: redshift_querys_def pure_def)
qed

lemma exhausted_text_suffix: "suffix ''NO RESULT AVAILABLE'' exhausted_text"
  by (simp add: exhausted_text_def suffix_def)

text \<open>
  C1. Whatever the services answer, one run of \<open>redshift_querys\<close> enters the LLM debugger at
  most 5 times. When the first fetch raised \<open>ResourceNotFoundException\<close> and the repair
  loop is left with the budget at zero and the status still \<open>FAILED\<close>, the run returns
  (it does not raise) the pair of the sentinel text, which ends in
  \<open>NO RESULT AVAILABLE\<close>, and the last repaired SQL.
\<close>

theorem repair_bounded_and_exhaustion_returns_sentinel:
  "debugger_calls (trace (snd (redshift_querys to_csv q_s response params conn_param database w)))
      \<le> debugger_calls (trace w) + 5
   \<and> (fst (get_statement_result (StatementId response) w) = Raise e \<longrightarrow> is_ResourceNotFound e \<longrightarrow>
       fst (repair_phase q_s response params conn_param database
              (snd (get_statement_result (StatementId response) w))) = Return (0, FAILED, response', q_s') \<longrightarrow>
       redshift_querys to_csv q_s response params conn_param database w =
         (Return (exhausted_text, q_s'),
          snd (repair_phase q_s response params conn_param database
                 (snd (get_statement_result (StatementId response) w))))
       \<and> suffix ''NO RESULT AVAILABLE'' exhausted_text)"
proof (intro conjI impI)
  from redshift_querys_adds[of to_csv q_s response params conn_param database]
  show "debugger_calls (trace (snd (redshift_querys to_csv q_s response params conn_param database w)))
      \<le> debugger_calls (trace w) + 5"
    unfolding adds_at_most_def dcount_def by blast
next
  assume g: "fst (get_statement_result (StatementId response) w) = Raise e"
    and nf: "is_ResourceNotFound e"
    and rp: "fst (repair_phase q_s response params conn_param database
              (snd (get_statement_result (StatementId response) w))) = Return (0, FAILED, response', q_s')"
  obtain w1 where g': "get_statement_result (StatementId response) w = (Raise e, w1)"
    using g by (cases "get_statement_result (StatementId response) w") simp
  obtain w2 where rp': "repair_phase q_s response params conn_param database w1 = (Return (0, FAILED, response', q_s'), w2)"
    using rp g' by (cases "repair_phase q_s response params conn_param database w1") simp
  have "slow_path to_csv q_s response params conn_param database w1 = (Return (exhausted_text, q_s'), w2)"
    using rp' by (simp add: slow_path_def bind_def pure_def answer_def result_pair_def)
  with g' nf rp'
  show "redshift_querys to_csv q_s response params conn_param database w =
         (Return (exhausted_text, q_s'),
          snd (repair_phase q_s response params conn_param database
                 (snd (get_statement_result (StatementId response) w))))"
    by (simp add: redshift_querys_def)
next
  show "suffix ''NO RESULT AVAILABLE'' exhausted_text" by (rule exhausted_text_suffix)
qed

theorem repair_bounded_and_exhaustion_witness:
  "fst (get_statement_result ''s0'' always_failing) = Raise (ResourceNotFoundException ''not found'')
   \<and> fst (repair_phase ''SELECT x FROM t'' \<lparr>StatementId = ''s0''\<rparr> demo_params demo_conn ''dev''
            (snd (get_statement_result ''s0'' always_failing)))
       = Return (0, FAILED, \<lparr>StatementId = ''s1''\<rparr>, ''SELECT 1'')
   \<and> fst (redshift_querys plain_csv ''SELECT x FROM t'' \<lparr>StatementId = ''s0''\<rparr> demo_params demo_conn ''dev''
            always_failing) = Return (exhausted_text, ''SELECT 1'')
   \<and> debugger_calls (trace (snd (redshift_querys plain_csv ''SELECT x FROM t'' \<lparr>StatementId = ''s0''\<rparr>
            demo_params demo_conn ''dev'' always_failing))) \<le> 5"
proof -
  note T = repair_bounded_and_exhaustion_returns_sentinel
         [of plain_csv "''SELECT x FROM t''" "\<lparr>StatementId = ''s0''\<rparr>" demo_params demo_conn "''dev''"
             always_failing "ResourceNotFoundException ''not found''" "\<lparr>StatementId = ''s1''\<rparr>" "''SELECT 1''"]
  have g: "fst (get_statement_result ''s0'' always_failing)
             = Raise (ResourceNotFoundException ''not found'')"
    by code_simp
  have rp: "fst (repair_phase ''SELECT x FROM t'' \<lparr>StatementId = ''s0''\<rparr> demo_params demo_conn ''dev''
            (snd (get_statement_result ''s0'' always_failing)))
       = Return (0, FAILED, \<lparr>StatementId = ''s1''\<rparr>, ''SELECT 1'')"
    by code_simp
  have t0: "debugger_calls (trace always_failing) = 0"
    by code_simp
  have c: "debugger_calls (trace (snd (redshift_querys plain_csv ''SELECT x FROM t'' \<lparr>StatementId = ''s0''\<rparr>
            demo_params demo_conn ''dev'' always_failing))) \<le> 5"
    using T [THEN conjunct1] t0 by simp
  have r: "fst (redshift_querys plain_csv ''SELECT x FROM t'' \<lparr>StatementId = ''s0''\<rparr> demo_params demo_conn ''dev''
            always_failing) = Return (exhausted_text, ''SELECT 1'')"
    using T [THEN conjunct2] g rp by simp
  from g rp r c show ?thesis by (intro conjI)
qed

section \<open>No repair without a failure (C2)\<close>

lemma describe_quiet:
  "describe_statement sid w = (r, w') \<Longrightarrow> dcount w' = dcount w"
  by (auto simp: describe_statement_def dcount_log split: list.splits)

lemma gsr_quiet:
  "get_statement_result sid w = (r, w') \<Longrightarrow> dcount w' = dcount w"
  by (auto simp: get_statement_result_def dcount_log split: list.splits)

lemma describe_never_failed:
  "describe_statement sid w = (Return d, w') \<Longrightarrow> never_failed w \<Longrightarrow> Status d \<noteq> FAILED \<and> never_failed w'"
proof -
  assume a: "describe_statement sid w = (Return d, w')" and nf: "never_failed w"
  from a obtain rest where ds: "descriptions w = Inr d # rest" and w': "descriptions w' = rest"
    by (cases "descriptions w"; cases "hd (descriptions w)")
       (auto simp: describe_statement_def log_call_def answer_def)
  with nf show ?thesis by (simp add: never_failed_def)
qed

lemma poll_never_failed:
  "poll delay sid status w = (Return status', w') \<Longrightarrow> never_failed w \<Longrightarrow> status \<noteq> FAILED
     \<Longrightarrow> status' \<noteq> FAILED \<and> dcount w' = dcount w"
proof (induction delay sid status w rule: poll.induct)
  case (1 delay sid status w)
  show ?case
  proof (cases "running status")
    case False
    with "1.prems" show ?thesis by (simp add: poll.simps)
  next
    case True
    obtain r w1 where d: "describe_statement sid (sleep delay w) = (r, w1)" by force
    from "1.prems"(2) have nf: "never_failed (sleep delay w)"
      by (simp add: never_failed_def sleep_def log_call_def)
    from d have q: "dcount w1 = dcount w" using describe_quiet by fastforce
    show ?thesis
    proof (cases r)
      case (Return dsc)
      from describe_never_failed[OF d[unfolded Return] nf] have s: "Status dsc \<noteq> FAILED" and nf1: "never_failed w1"
        by simp_all
      from "1.prems"(1) True d Return have p: "poll delay sid (Status dsc) w1 = (Return status', w')"
        by (simp add: poll.simps[of delay sid status w])
      from "1.IH"[OF True d[symmetric, unfolded Return] refl p nf1 s] q show ?thesis by simp
    next
      case (Raise e)
      with "1.prems"(1) True d show ?thesis by (simp add: poll.simps[of delay sid status w])
    next
      case NoResponse
      with "1.prems"(1) True d show ?thesis by (simp add: poll.simps[of delay sid status w])
    qed
  qed
qed

lemma repair_loop_not_entered:
  "status \<noteq> FAILED \<Longrightarrow> repair_loop n status desc response q_s params cp db w = (Return (n, status, response, q_s), w)"
  by (cases n) simp_all

lemma fetch_quiet:
  "fetch_result_retry n sid w = (r, w') \<Longrightarrow> dcount w' = dcount w"
proof (induction n arbitrary: w)
  case 0
  then show ?case by simp
next
  case (Suc n)
  obtain r1 w1 where g: "get_statement_result sid (sleep 1 w) = (r1, w1)" by force
  then have q: "dcount w1 = dcount w" using gsr_quiet by fastforce
  show ?case
  proof (cases r1)
    case (Return x)
    with Suc.prems g q show ?thesis by auto
  next
    case (Raise e)
    show ?thesis
    proof (cases "is_ResourceNotFound e")
      case True
      with Suc.prems g Raise have "fetch_result_retry n sid (sleep 5 w1) = (r, w')" by simp
      from Suc.IH[OF this] q show ?thesis by simp
    next
      case False
      with Suc.prems g Raise q show ?thesis by auto
    qed
  next
    case NoResponse
    with Suc.prems g q show ?thesis by auto
  qed
qed

lemma result_pair_sql:
  "result_pair to_csv max_try status stmt_result q_s = Inr (csv, sql) \<Longrightarrow> sql = q_s"
  by (auto simp: result_pair_def then_E_def split: if_splits option.splits sum.splits)

lemma slow_path_no_repair:
  assumes run: "slow_path to_csv q_s response params cp db w = (Return (csv, sql), w')"
      and nf: "never_failed w"
  shows "sql = q_s \<and> dcount w' = dcount w"
proof -
  obtain r1 w1 where d: "describe_statement (StatementId response) w = (r1, w1)" by force
  from run d obtain desc where r1: "r1 = Return desc"
    by (cases r1) (auto simp: slow_path_def repair_phase_def bind_def)
  from describe_never_failed[OF d[unfolded r1] nf] have s0: "Status desc \<noteq> FAILED" and nf1: "never_failed w1"
    by simp_all
  from d have q1: "dcount w1 = dcount w" using describe_quiet by fastforce
  obtain r2 w2 where p: "poll 1 (StatementId response) (Status desc) w1 = (r2, w2)" by force
  from run d r1 p obtain status where r2: "r2 = Return status"
    by (cases r2) (auto simp: slow_path_def repair_phase_def bind_def)
  from poll_never_failed[OF p[unfolded r2] nf1 s0] have s: "status \<noteq> FAILED" and q2: "dcount w2 = dcount w1"
    by simp_all
  have rp: "repair_phase q_s response params cp db w = (Return (5, status, response, q_s), w2)"
    using d r1 p r2 repair_loop_not_entered[OF s] by (simp add: repair_phase_def bind_def)
  obtain r3 w3 where f: "fetch_result_retry 5 (StatementId response) w2 = (r3, w3)" by force
  from f have q3: "dcount w3 = dcount w2" using fetch_quiet by fastforce
  from run rp f s obtain sr where r3: "r3 = Return sr"
    by (cases r3) (auto simp: slow_path_def bind_def)
  from run rp f s r3 have "answer (result_pair to_csv 5 (Some status) sr q_s) = Return (csv, sql)" and "w' = w3"
    by (auto simp: slow_path_def bind_def pure_def)
  then have "result_pair to_csv 5 (Some status) sr q_s = Inr (csv, sql)"
    by (auto simp: answer_def split: sum.splits)
  from result_pair_sql[OF this] q1 q2 q3 \<open>w' = w3\<close> show ?thesis by simp
qed

text \<open>
  C2. When \<open>redshift_querys\<close> returns a pair and either the first result fetch succeeded (the
  fast path) or no description of the run reported \<open>FAILED\<close> (the slow path, polling ending
  in a status other than \<open>FAILED\<close>), the SQL text of the pair is the input \<open>q_s\<close>, and the
  LLM debugger was not entered.
\<close>

theorem success_returns_input_sql:
  assumes run: "redshift_querys to_csv q_s response params cp db w = (Return (result_csv, sql), w')"
      and ok: "(\<exists>r. fst (get_statement_result (StatementId response) w) = Return r) \<or> never_failed w"
  shows "sql = q_s \<and> debugger_calls (trace w') = debugger_calls (trace w)"
proof -
  obtain r1 w1 where g: "get_statement_result (StatementId response) w = (r1, w1)" by force
  from g have q: "dcount w1 = dcount w" using gsr_quiet by fastforce
  show ?thesis
  proof (cases r1)
    case (Return sr)
    with run g have "answer (result_pair to_csv 5 None (Some sr) q_s) = Return (result_csv, sql)" and "w' = w1"
      by (auto simp: redshift_querys_def pure_def)
    then have "result_pair to_csv 5 None (Some sr) q_s = Inr (result_csv, sql)"
      by (auto simp: answer_def split: sum.splits)
    from result_pair_sql[OF this] q \<open>w' = w1\<close> show ?thesis by (simp add: dcount_def)
  next
    case (Raise e)
    with ok g have nf: "never_failed w" by auto
    then have nf1: "never_failed w1" using g
      by (auto simp: get_statement_result_def never_failed_def log_call_def split: list.splits)
    from run g Raise have "slow_path to_csv q_s response params cp db w1 = (Return (result_csv, sql), w')"
      by (auto simp: redshift_querys_def split: if_splits)
    from slow_path_no_repair[OF this nf1] q show ?thesis by (simp add: dcount_def)
  next
    case NoResponse
    with run g show ?thesis by (simp add: redshift_querys_def)
  qed
qed

theorem success_returns_input_sql_witness:
  "never_failed finishing
   \<and> fst (redshift_querys plain_csv ''SELECT x FROM t'' \<lparr>StatementId = ''s0''\<rparr> demo_params demo_conn ''dev'' finishing)
       = Return (''x'', ''SELECT x FROM t'')
   \<and> debugger_calls (trace (snd (redshift_querys plain_csv ''SELECT x FROM t'' \<lparr>StatementId = ''s0''\<rparr>
         demo_params demo_conn ''dev'' finishing))) = debugger_calls (trace finishing)"
proof -
  have nf: "never_failed finishing"
    by code_simp
  have f: "fst (redshift_querys plain_csv ''SELECT x FROM t'' \<lparr>StatementId = ''s0''\<rparr> demo_params demo_conn ''dev'' finishing)
       = Return (''x'', ''SELECT x FROM t'')"
    by code_simp
  then have run: "redshift_querys plain_csv ''SELECT x FROM t'' \<lparr>StatementId = ''s0''\<rparr> demo_params demo_conn ''dev'' finishing
       = (Return (''x'', ''SELECT x FROM t''),
          snd (redshift_querys plain_csv ''SELECT x FROM t'' \<lparr>StatementId = ''s0''\<rparr> demo_params demo_conn ''dev'' finishing))"
    by (metis prod.collapse)
  from success_returns_input_sql [OF run disjI2 [OF nf]] nf f show ?thesis by blast
qed

section \<open>Where the slow path raises (C10)\<close>




section \<open>The connection parameters choose the path (C5)\<close>



lemma extends_log: "P c \<Longrightarrow> trace w1 = trace w \<Longrightarrow> extends_with P w (log_call c w1)"
  by (simp add: extends_with_def log_call_def)










lemma requests_append [simp]: "requests (xs @ ys) = requests xs @ requests ys"
  by (simp add: requests_def)






section \<open>Malformed completion responses (C4)\<close>

lemma missing_key_error:
  "missing_key j k \<Longrightarrow> subscript_key j k = Inl (KeyError k)"
  by (cases j) (auto simp: missing_key_def)

lemma malformed_response_text:
  "malformed_envelope mr \<Longrightarrow> \<exists>e. response_text mr = Inl e \<and> is_KeyError_or_IndexError e"
  by (auto simp: malformed_envelope_def response_text_def then_E_def
           dest!: missing_key_error split: sum.splits)

text \<open>
  C4, as amended. On a response whose envelope has a key missing or an empty content list,
  \<open>qna_llm\<close> does not raise: it returns the diagnostic text that embeds the raw response.
  \<open>query_llm\<close> has no handler and raises the \<open>KeyError\<close> or \<open>IndexError\<close>.
\<close>

theorem malformed_response_handling:
  assumes "malformed_envelope model_response" and "completions w = Inr model_response # rest"
  shows "fst (qna_llm py_str prompts modelId w)
           = Return (JStr (''Unexpected response format: '' @ py_str model_response))
       \<and> (\<exists>e. fst (query_llm prompts modelId w) = Raise e \<and> is_KeyError_or_IndexError e)"
proof -
  from malformed_response_text[OF assms(1)] obtain e where
    e: "response_text model_response = Inl e" "is_KeyError_or_IndexError e" by blast
  with assms(2) show ?thesis
    by (auto simp: qna_llm_def query_llm_def call_bedrock_def bind_def pure_def answer_def)
qed


theorem malformed_response_handling_witness:
  "malformed_envelope no_content
   \<and> fst (qna_llm (\<lambda>j. ''<raw>'') ''Summarise'' (Some ''amazon.nova-pro-v1:0'') (empty_world\<lparr>completions := [Inr no_content]\<rparr>))
       = Return (JStr ''Unexpected response format: <raw>'')
   \<and> (\<exists>e. fst (query_llm ''Summarise'' (Some ''amazon.nova-pro-v1:0'') (empty_world\<lparr>completions := [Inr no_content]\<rparr>))
          = Raise e \<and> is_KeyError_or_IndexError e)"
proof -
  have m: "malformed_envelope no_content"
    by (simp add: malformed_envelope_def no_content_def)
  have c: "completions (empty_world\<lparr>completions := [Inr no_content]\<rparr>) = Inr no_content # []"
    by simp
  from malformed_response_handling [OF m c, of "\<lambda>j. ''<raw>''" "''Summarise''" "Some ''amazon.nova-pro-v1:0''"] m
  show ?thesis by simp
qed

text \<open>
  The claim as stated fails for \<open>query_llm\<close>: on the empty object, a response with the key
  \<^verbatim>\<open>output\<close> missing, it raises \<open>KeyError\<close>.
\<close>

theorem query_llm_raises_on_malformed:
  "malformed_envelope (JObj [])
   \<and> fst (query_llm ''Question'' (Some SQL_MODEL_ID) (empty_world\<lparr>completions := [Inr (JObj [])]\<rparr>))
       = Raise (KeyError ''output'')"
  by (simp add: malformed_envelope_def missing_key_def query_llm_def call_bedrock_def bind_def pure_def
      answer_def response_text_def then_E_def)
section \<open>The quick test only submits (C9)\<close>

lemma sublist_map_iff:
  "sublist xs (map f s) \<longleftrightarrow> (\<exists>before u after. s = before @ u @ after \<and> map f u = xs)"
proof
  assume "sublist xs (map f s)"
  then obtain ps ss where "map f s = ps @ xs @ ss"
    unfolding sublist_def by blast
  then obtain before r where s: "s = before @ r" and "map f r = xs @ ss"
    by (metis map_eq_append_conv)
  then obtain u after where "r = u @ after" "map f u = xs"
    by (metis map_eq_append_conv)
  with s show "\<exists>before u after. s = before @ u @ after \<and> map f u = xs" by blast
next
  assume "\<exists>before u after. s = before @ u @ after \<and> map f u = xs"
  then obtain before u after where "s = before @ u @ after" "map f u = xs" by blast
  then have "map f s = map f before @ xs @ map f after" by simp
  then show "sublist xs (map f s)" unfolding sublist_def by blast
qed

lemma upper_LIMIT: "ascii_upper ''LIMIT'' = ''LIMIT''"
  by (simp add: ascii_upper_def upper_char_def)

lemma contains_limit_iff:
  "sublist ''LIMIT'' (ascii_upper s) \<longleftrightarrow> contains_ignoring_case ''LIMIT'' s"
  unfolding contains_ignoring_case_def upper_LIMIT
  unfolding ascii_upper_def by (rule sublist_map_iff)

lemma failed_is_not_valid: "''SQL Failed: '' @ text \<noteq> valid_message"
  by (simp add: valid_message_def)

lemma quick_test_outcome:
  "fst (quick_test_sql upper conn db sql_query w) =
     (case fst (execute_query_redshift (test_query_of upper sql_query) conn db w) of
        Return resp \<Rightarrow> Return valid_message
      | Raise e \<Rightarrow> Return (''SQL Failed: '' @ exn_str e)
      | NoResponse \<Rightarrow> NoResponse)"
  by (cases "execute_query_redshift (test_query_of upper sql_query) conn db w";
      cases "fst (execute_query_redshift (test_query_of upper sql_query) conn db w)")
     (auto simp: quick_test_sql_def)

text \<open>
  C9. \<open>quick_test_sql\<close> reports success on the submission alone. \<open>upper\<close> stands for
  Python's \<^verbatim>\<open>str.upper\<close>; the statement holds for every such function.

  \<^item> The text submitted is the stripped query, with \<^verbatim>\<open> LIMIT 1\<close> appended exactly when
    the upper-cased stripped query does not contain \<^verbatim>\<open>LIMIT\<close>.
  \<^item> Where upper-casing the stripped query is the letter-by-letter mapping of \<^verbatim>\<open>a\<close>-\<^verbatim>\<open>z\<close> to
    \<^verbatim>\<open>A\<close>-\<^verbatim>\<open>Z\<close> (as it is for a query of ASCII characters), that test is: some substring
    of the stripped query equals \<^verbatim>\<open>LIMIT\<close> up to letter case.
  \<^item> The submission is the only call made: no status is ever read.
  \<^item> The success message is returned exactly when the submission returns.
  \<^item> When the submission raises \<open>e\<close>, the tool returns \<^verbatim>\<open>SQL Failed: \<close> followed by
    \<^verbatim>\<open>str(e)\<close>; it does not raise.
  \<^item> The outcome is the same whatever the statement's later descriptions are, so a
    statement that fails after being accepted is reported as valid.
\<close>

theorem quick_test_reports_submission_only:
  "test_query_of upper sql_query =
      (if sublist ''LIMIT'' (upper (py_strip sql_query)) then py_strip sql_query
       else py_strip sql_query @ '' LIMIT 1'')
   \<and> (upper (py_strip sql_query) = ascii_upper (py_strip sql_query) \<longrightarrow>
        (sublist ''LIMIT'' (upper (py_strip sql_query)) \<longleftrightarrow> contains_ignoring_case ''LIMIT'' (py_strip sql_query)))
   \<and> trace (snd (quick_test_sql upper conn db sql_query w))
        = trace w @ [ExecuteStatement (test_query_of upper sql_query) conn db]
   \<and> (fst (quick_test_sql upper conn db sql_query w) = Return valid_message
        \<longleftrightarrow> (\<exists>resp. fst (execute_query_redshift (test_query_of upper sql_query) conn db w) = Return resp))
   \<and> (fst (execute_query_redshift (test_query_of upper sql_query) conn db w) = Raise e
        \<longrightarrow> fst (quick_test_sql upper conn db sql_query w) = Return (''SQL Failed: '' @ exn_str e))
   \<and> (fst (execute_query_redshift (test_query_of upper sql_query) conn db w) = NoResponse
        \<longrightarrow> fst (quick_test_sql upper conn db sql_query w) = NoResponse)
   \<and> fst (quick_test_sql upper conn db sql_query (w\<lparr>descriptions := ds\<rparr>))
        = fst (quick_test_sql upper conn db sql_query w)"
proof (intro conjI impI)
  show "test_query_of upper sql_query =
      (if sublist ''LIMIT'' (upper (py_strip sql_query)) then py_strip sql_query
       else py_strip sql_query @ '' LIMIT 1'')"
    by (simp add: test_query_of_def Let_def)
next
  assume "upper (py_strip sql_query) = ascii_upper (py_strip sql_query)"
  then show "sublist ''LIMIT'' (upper (py_strip sql_query)) \<longleftrightarrow> contains_ignoring_case ''LIMIT'' (py_strip sql_query)"
    by (simp only: contains_limit_iff)
next
  show "trace (snd (quick_test_sql upper conn db sql_query w))
        = trace w @ [ExecuteStatement (test_query_of upper sql_query) conn db]"
    by (auto simp: quick_test_sql_def execute_query_redshift_def execute_statement_def log_call_def answer_def
             split: list.splits sum.splits)
next
  show "fst (quick_test_sql upper conn db sql_query w) = Return valid_message
        \<longleftrightarrow> (\<exists>resp. fst (execute_query_redshift (test_query_of upper sql_query) conn db w) = Return resp)"
  proof (cases "fst (execute_query_redshift (test_query_of upper sql_query) conn db w)")
    case (Return resp)
    then show ?thesis unfolding quick_test_outcome by simp
  next
    case (Raise x)
    have "Return (''SQL Failed: '' @ exn_str x) \<noteq> Return valid_message"
      using failed_is_not_valid [of "exn_str x"] by blast
    moreover have "\<not> (\<exists>resp. fst (execute_query_redshift (test_query_of upper sql_query) conn db w) = Return resp)"
      using Raise by simp
    moreover have "fst (quick_test_sql upper conn db sql_query w) = Return (''SQL Failed: '' @ exn_str x)"
      unfolding quick_test_outcome using Raise by simp
    ultimately show ?thesis by metis
  next
    case NoResponse
    then show ?thesis unfolding quick_test_outcome by simp
  qed
next
  assume "fst (execute_query_redshift (test_query_of upper sql_query) conn db w) = Raise e"
  then show "fst (quick_test_sql upper conn db sql_query w) = Return (''SQL Failed: '' @ exn_str e)"
    unfolding quick_test_outcome by simp
next
  assume "fst (execute_query_redshift (test_query_of upper sql_query) conn db w) = NoResponse"
  then show "fst (quick_test_sql upper conn db sql_query w) = NoResponse"
    unfolding quick_test_outcome by simp
next
  show "fst (quick_test_sql upper conn db sql_query (w\<lparr>descriptions := ds\<rparr>)) = fst (quick_test_sql upper conn db sql_query w)"
    by (auto simp: quick_test_sql_def execute_query_redshift_def execute_statement_def log_call_def answer_def
             split: list.splits sum.splits)
qed

theorem quick_test_reports_submission_only_witness:
  "test_query_of ascii_upper ''  select x from t limit 5 '' = ''select x from t limit 5''
   \<and> test_query_of ascii_upper ''SELECT x FROM t'' = ''SELECT x FROM t LIMIT 1''
   \<and> \<not> contains_ignoring_case ''LIMIT'' (py_strip ''SELECT x FROM t'')
   \<and> fst (execute_query_redshift (test_query_of ascii_upper ''SELECT x FROM t'') demo_conn ''dev'' accepted_then_failing)
       = Return \<lparr>StatementId = ''s0''\<rparr>
   \<and> fst (quick_test_sql ascii_upper demo_conn ''dev'' ''SELECT x FROM t'' accepted_then_failing) = Return valid_message
   \<and> trace (snd (quick_test_sql ascii_upper demo_conn ''dev'' ''SELECT x FROM t'' accepted_then_failing))
       = [ExecuteStatement ''SELECT x FROM t LIMIT 1'' demo_conn ''dev'']
   \<and> fst (execute_query_redshift (test_query_of ascii_upper ''SELECT x FROM t'') demo_conn ''dev'' rejected_at_submission)
       = Raise (ClientError ''ValidationException'' rejected_text)
   \<and> fst (quick_test_sql ascii_upper demo_conn ''dev'' ''SELECT x FROM t'' rejected_at_submission)
       = Return (''SQL Failed: '' @ rejected_text)
   \<and> fst (execute_query_redshift (test_query_of ascii_upper ''SELECT x FROM t'') demo_conn ''dev'' empty_world)
       = NoResponse
   \<and> fst (quick_test_sql ascii_upper demo_conn ''dev'' ''SELECT x FROM t'' empty_world) = NoResponse"
proof -
  note T = quick_test_reports_submission_only
      [where upper = ascii_upper and sql_query = "''SELECT x FROM t''" and conn = demo_conn
         and db = "''dev''" and w = accepted_then_failing]
  note R = quick_test_reports_submission_only
      [where upper = ascii_upper and sql_query = "''SELECT x FROM t''" and conn = demo_conn
         and db = "''dev''" and w = rejected_at_submission
         and e = "ClientError ''ValidationException'' rejected_text"]
  note N = quick_test_reports_submission_only
      [where upper = ascii_upper and sql_query = "''SELECT x FROM t''" and conn = demo_conn
         and db = "''dev''" and w = empty_world]
  have a: "test_query_of ascii_upper ''  select x from t limit 5 '' = ''select x from t limit 5''"
    by code_simp
  have b: "test_query_of ascii_upper ''SELECT x FROM t'' = ''SELECT x FROM t LIMIT 1''"
    by code_simp
  have u: "\<not> sublist ''LIMIT'' (ascii_upper (py_strip ''SELECT x FROM t''))"
    by code_simp
  from T u have n: "\<not> contains_ignoring_case ''LIMIT'' (py_strip ''SELECT x FROM t'')"
    by blast
  have c: "fst (execute_query_redshift (test_query_of ascii_upper ''SELECT x FROM t'') demo_conn ''dev'' accepted_then_failing)
       = Return \<lparr>StatementId = ''s0''\<rparr>"
    by code_simp
  have t0: "trace accepted_then_failing = []"
    by code_simp
  from T c have d: "fst (quick_test_sql ascii_upper demo_conn ''dev'' ''SELECT x FROM t'' accepted_then_failing) = Return valid_message"
    by blast
  from T b t0 have e: "trace (snd (quick_test_sql ascii_upper demo_conn ''dev'' ''SELECT x FROM t'' accepted_then_failing))
       = [ExecuteStatement ''SELECT x FROM t LIMIT 1'' demo_conn ''dev'']"
    by simp
  have f: "fst (execute_query_redshift (test_query_of ascii_upper ''SELECT x FROM t'') demo_conn ''dev'' rejected_at_submission)
       = Raise (ClientError ''ValidationException'' rejected_text)"
    by code_simp
  have x: "exn_str (ClientError ''ValidationException'' rejected_text) = rejected_text"
    by simp
  from R f have "fst (quick_test_sql ascii_upper demo_conn ''dev'' ''SELECT x FROM t'' rejected_at_submission)
       = Return (''SQL Failed: '' @ exn_str (ClientError ''ValidationException'' rejected_text))"
    by blast
  with x have g: "fst (quick_test_sql ascii_upper demo_conn ''dev'' ''SELECT x FROM t'' rejected_at_submission)
       = Return (''SQL Failed: '' @ rejected_text)"
    by simp
  have h: "fst (execute_query_redshift (test_query_of ascii_upper ''SELECT x FROM t'') demo_conn ''dev'' empty_world)
       = NoResponse"
    by code_simp
  from N h have i: "fst (quick_test_sql ascii_upper demo_conn ''dev'' ''SELECT x FROM t'' empty_world) = NoResponse"
    by blast
  from a b n c d e f g h i show ?thesis by (intro conjI)
qed
section \<open>Extraction without a closing delimiter (C7)\<close>


lemma not_sublist_Cons:
  assumes "\<not> sublist xs (c # cs)"
  shows "\<not> prefix xs (c # cs) \<and> \<not> sublist xs cs"
proof
  show "\<not> prefix xs (c # cs)"
  proof
    assume "prefix xs (c # cs)"
    then obtain zs where "c # cs = [] @ xs @ zs" by (auto simp: prefix_def)
    then have "sublist xs (c # cs)" unfolding sublist_def by blast
    with assms show False by simp
  qed
  show "\<not> sublist xs cs"
  proof
    assume "sublist xs cs"
    then obtain ps ss where "cs = ps @ xs @ ss" unfolding sublist_def by blast
    then have "c # cs = (c # ps) @ xs @ ss" by simp
    then have "sublist xs (c # cs)" unfolding sublist_def by blast
    with assms show False by simp
  qed
qed

lemma py_partition_None:
  "\<not> sublist sep s \<Longrightarrow> py_partition sep s = None"
proof (induction s)
  case Nil
  show ?case by simp
next
  case (Cons c cs)
  from not_sublist_Cons[OF Cons.prems] Cons.IH show ?case by simp
qed



lemma py_split_absent:
  "\<not> sublist sep s \<Longrightarrow> py_split sep s = [s]"
  by (simp add: py_split.simps[of sep s] py_partition_None)

















section \<open>Only the fetch tools write the cached context (C3)\<close>

lemma scan_keeps_schema:
  "list_all (\<lambda>m. \<not> names_schema_tool m) msgs \<Longrightarrow> fst (scan_tool_messages msgs (schema, sample)) = schema"
  by (induction msgs arbitrary: sample) (auto simp: names_schema_tool_def)

lemma scan_keeps_sample:
  "list_all (\<lambda>m. \<not> names_sample_tool m) msgs \<Longrightarrow> snd (scan_tool_messages msgs (schema, sample)) = sample"
  by (induction msgs arbitrary: schema) (auto simp: names_sample_tool_def)

lemma scan_append:
  "scan_tool_messages (xs @ ys) p = scan_tool_messages ys (scan_tool_messages xs p)"
proof (induction xs arbitrary: p)
  case Nil
  show ?case by (cases p) simp
next
  case (Cons x xs)
  obtain a b where p: "p = (a, b)" by force
  show ?case unfolding p using Cons.IH by simp
qed

lemma updates_keep_schema:
  "list_all (\<lambda>m. \<not> names_schema_tool m) msgs
    \<Longrightarrow> upd_schema_info (updates_of s msgs) = Some (get_or_empty (schema_info s))"
  using scan_keeps_schema[of msgs "get_or_empty (schema_info s)" "get_or_empty (sample_data s)"]
  by (auto simp: updates_of_def split: prod.splits)

lemma updates_keep_sample:
  "list_all (\<lambda>m. \<not> names_sample_tool m) msgs
    \<Longrightarrow> upd_sample_data (updates_of s msgs) = Some (get_or_empty (sample_data s))"
  using scan_keeps_sample[of msgs "get_or_empty (schema_info s)" "get_or_empty (sample_data s)"]
  by (auto simp: updates_of_def split: prod.splits)

lemma updates_set_schema:
  assumes "names_schema_tool m" and "list_all (\<lambda>m. \<not> names_schema_tool m) later"
  shows "upd_schema_info (updates_of s (earlier @ m # later)) = Some (content m)"
proof -
  obtain a b where e: "scan_tool_messages earlier (get_or_empty (schema_info s), get_or_empty (sample_data s)) = (a, b)"
    by force
  have "scan_tool_messages (earlier @ m # later) (get_or_empty (schema_info s), get_or_empty (sample_data s))
        = scan_tool_messages later (content m, b)"
    using assms(1) e by (simp add: scan_append names_schema_tool_def)
  with scan_keeps_schema[OF assms(2), of "content m" b] show ?thesis
    by (auto simp: updates_of_def split: prod.splits)
qed

lemma updates_set_sample:
  assumes "names_sample_tool m" and "list_all (\<lambda>m. \<not> names_sample_tool m) later"
  shows "upd_sample_data (updates_of s (earlier @ m # later)) = Some (content m)"
proof -
  obtain a b where e: "scan_tool_messages earlier (get_or_empty (schema_info s), get_or_empty (sample_data s)) = (a, b)"
    by force
  have "scan_tool_messages (earlier @ m # later) (get_or_empty (schema_info s), get_or_empty (sample_data s))
        = scan_tool_messages later (a, content m)"
    using assms(1) e by (simp add: scan_append names_sample_tool_def)
  with scan_keeps_sample[OF assms(2), of a "content m"] show ?thesis
    by (auto simp: updates_of_def split: prod.splits)
qed

lemma other_tool_is_no_fetch:
  "from_other_tool m \<Longrightarrow> \<not> names_schema_tool m \<and> \<not> names_sample_tool m"
  by (auto simp: from_other_tool_def other_tools_def names_schema_tool_def names_sample_tool_def)

lemma run_graph_keeps_schema:
  "run_graph s g = (Return s', g') \<Longrightarrow> never_runs names_schema_tool g
     \<Longrightarrow> get_or_empty (schema_info s') = get_or_empty (schema_info s)"
proof (induction s g rule: run_graph.induct)
  case (1 s g)
  let ?u = "\<lparr>upd_messages = [], upd_schema_info = None, upd_sample_data = None\<rparr>"
  obtain r1 g1 where l: "llm_invoke (system_message s # messages s) g = (r1, g1)" by force
  then have tr1: "tool_runs g1 = tool_runs g" by (auto simp: llm_invoke_def split: list.splits)
  from "1.prems"(1) l obtain response where r1: "r1 = Return response"
    by (cases r1) (auto simp: run_graph.simps[of s g] Let_def)
  let ?s1 = "apply_update s \<lparr>upd_messages = [response], upd_schema_info = None, upd_sample_data = None\<rparr>"
  have s1: "schema_info ?s1 = schema_info s" by (simp add: apply_update_def)
  show ?case
  proof (cases "tool_calls response = []")
    case True
    with "1.prems"(1) l r1 have "s' = ?s1" by (simp add: run_graph.simps[of s g] Let_def)
    with s1 show ?thesis by simp
  next
    case False
    obtain r2 g2 where t: "tool_node_invoke ?s1 g1 = (r2, g2)" by force
    from "1.prems"(1) l r1 False t obtain msgs where r2: "r2 = Return msgs"
      by (cases r2) (auto simp: run_graph.simps[of s g] Let_def)
    from t r2 obtain rest where tr: "tool_runs g1 = Inr msgs # rest" and tr2: "tool_runs g2 = rest"
      by (cases "tool_runs g1"; cases "hd (tool_runs g1)") (auto simp: tool_node_invoke_def answer_def)
    from "1.prems"(2) tr tr1 have quiet: "list_all (\<lambda>m. \<not> names_schema_tool m) msgs" and nr: "never_runs names_schema_tool g2"
      using tr2 by (simp_all add: never_runs_def)
    let ?s2 = "apply_update ?s1 (updates_of ?s1 msgs)"
    from "1.prems"(1) l r1 False t r2 have rec: "run_graph ?s2 g2 = (Return s', g')"
      by (simp add: run_graph.simps[of s g] Let_def)
    have "get_or_empty (schema_info s') = get_or_empty (schema_info ?s2)"
      using "1.IH"[OF l[symmetric] r1 refl False t[symmetric] r2 rec nr] .
    also have "schema_info ?s2 = Some (get_or_empty (schema_info ?s1))"
      using updates_keep_schema[OF quiet, of ?s1] by (simp add: apply_update_def)
    finally show ?thesis using s1 by (simp add: get_or_empty_def)
  qed
qed

lemma run_graph_keeps_sample:
  "run_graph s g = (Return s', g') \<Longrightarrow> never_runs names_sample_tool g
     \<Longrightarrow> get_or_empty (sample_data s') = get_or_empty (sample_data s)"
proof (induction s g rule: run_graph.induct)
  case (1 s g)
  let ?u = "\<lparr>upd_messages = [], upd_schema_info = None, upd_sample_data = None\<rparr>"
  obtain r1 g1 where l: "llm_invoke (system_message s # messages s) g = (r1, g1)" by force
  then have tr1: "tool_runs g1 = tool_runs g" by (auto simp: llm_invoke_def split: list.splits)
  from "1.prems"(1) l obtain response where r1: "r1 = Return response"
    by (cases r1) (auto simp: run_graph.simps[of s g] Let_def)
  let ?s1 = "apply_update s \<lparr>upd_messages = [response], upd_schema_info = None, upd_sample_data = None\<rparr>"
  have s1: "sample_data ?s1 = sample_data s" by (simp add: apply_update_def)
  show ?case
  proof (cases "tool_calls response = []")
    case True
    with "1.prems"(1) l r1 have "s' = ?s1" by (simp add: run_graph.simps[of s g] Let_def)
    with s1 show ?thesis by simp
  next
    case False
    obtain r2 g2 where t: "tool_node_invoke ?s1 g1 = (r2, g2)" by force
    from "1.prems"(1) l r1 False t obtain msgs where r2: "r2 = Return msgs"
      by (cases r2) (auto simp: run_graph.simps[of s g] Let_def)
    from t r2 obtain rest where tr: "tool_runs g1 = Inr msgs # rest" and tr2: "tool_runs g2 = rest"
      by (cases "tool_runs g1"; cases "hd (tool_runs g1)") (auto simp: tool_node_invoke_def answer_def)
    from "1.prems"(2) tr tr1 have quiet: "list_all (\<lambda>m. \<not> names_sample_tool m) msgs" and nr: "never_runs names_sample_tool g2"
      using tr2 by (simp_all add: never_runs_def)
    let ?s2 = "apply_update ?s1 (updates_of ?s1 msgs)"
    from "1.prems"(1) l r1 False t r2 have rec: "run_graph ?s2 g2 = (Return s', g')"
      by (simp add: run_graph.simps[of s g] Let_def)
    have "get_or_empty (sample_data s') = get_or_empty (sample_data ?s2)"
      using "1.IH"[OF l[symmetric] r1 refl False t[symmetric] r2 rec nr] .
    also have "sample_data ?s2 = Some (get_or_empty (sample_data ?s1))"
      using updates_keep_sample[OF quiet, of ?s1] by (simp add: apply_update_def)
    finally show ?thesis using s1 by (simp add: get_or_empty_def)
  qed
qed

text \<open>
  C3. The update returned by \<open>tools_with_state_update\<close> carries the prior schema text
  (read with the empty default) unless one of the tool messages is named
  \<^verbatim>\<open>get_database_schema\<close>, in which case it carries the content of the last such message;
  likewise the sample text and \<^verbatim>\<open>get_sample_data\<close>. Messages of the three other tools
  change neither. Over a whole run of the control loop that ends, the schema text of the
  final state is the initial one when the tool node never produced a schema message, and
  the sample text is the initial one when it never produced a sample message.
\<close>

theorem cache_written_only_by_fetch_tools:
  "(list_all (\<lambda>m. \<not> names_schema_tool m) msgs \<longrightarrow>
       upd_schema_info (updates_of s msgs) = Some (get_or_empty (schema_info s)))
   \<and> (list_all (\<lambda>m. \<not> names_sample_tool m) msgs \<longrightarrow>
       upd_sample_data (updates_of s msgs) = Some (get_or_empty (sample_data s)))
   \<and> (names_schema_tool m \<longrightarrow> list_all (\<lambda>m. \<not> names_schema_tool m) later \<longrightarrow>
       upd_schema_info (updates_of s (earlier @ m # later)) = Some (content m))
   \<and> (names_sample_tool m \<longrightarrow> list_all (\<lambda>m. \<not> names_sample_tool m) later \<longrightarrow>
       upd_sample_data (updates_of s (earlier @ m # later)) = Some (content m))
   \<and> (list_all from_other_tool msgs \<longrightarrow>
       upd_schema_info (updates_of s msgs) = Some (get_or_empty (schema_info s))
       \<and> upd_sample_data (updates_of s msgs) = Some (get_or_empty (sample_data s)))
   \<and> (run_graph s g = (Return s', g') \<longrightarrow> never_runs names_schema_tool g \<longrightarrow>
       get_or_empty (schema_info s') = get_or_empty (schema_info s))
   \<and> (run_graph s g = (Return s', g') \<longrightarrow> never_runs names_sample_tool g \<longrightarrow>
       get_or_empty (sample_data s') = get_or_empty (sample_data s))"
proof (intro conjI impI)
  assume "list_all from_other_tool msgs"
  then have a: "list_all (\<lambda>m. \<not> names_schema_tool m) msgs" and b: "list_all (\<lambda>m. \<not> names_sample_tool m) msgs"
    using other_tool_is_no_fetch by (auto simp: list_all_iff)
  from a show "upd_schema_info (updates_of s msgs) = Some (get_or_empty (schema_info s))"
    by (rule updates_keep_schema)
  from b show "upd_sample_data (updates_of s msgs) = Some (get_or_empty (sample_data s))"
    by (rule updates_keep_sample)
qed (auto intro: updates_keep_schema updates_keep_sample updates_set_schema updates_set_sample
          run_graph_keeps_schema run_graph_keeps_sample)

theorem cache_written_only_by_fetch_tools_witness:
  "upd_schema_info (updates_of cached_state [tool_message ''quick_test_sql'' valid_message]) = Some ''t(x)''
   \<and> upd_sample_data (updates_of cached_state [tool_message ''quick_test_sql'' valid_message]) = Some ''1''
   \<and> upd_schema_info (updates_of cached_state
         [tool_message ''get_database_schema'' ''t(x,y)'', tool_message ''get_sample_data'' ''1,2''])
       = Some ''t(x,y)''
   \<and> upd_sample_data (updates_of cached_state
         [tool_message ''get_database_schema'' ''t(x,y)'', tool_message ''get_sample_data'' ''1,2''])
       = Some ''1,2''
   \<and> (\<exists>s'. fst (run_graph cached_state sql_only_turn) = Return s'
         \<and> schema_info s' = Some ''t(x)'' \<and> sample_data s' = Some ''1''
         \<and> get_or_empty (schema_info s') = get_or_empty (schema_info cached_state)
         \<and> get_or_empty (sample_data s') = get_or_empty (sample_data cached_state))"
proof -
  let ?q = "tool_message ''quick_test_sql'' valid_message"
  let ?a = "tool_message ''get_database_schema'' ''t(x,y)''"
  let ?b = "tool_message ''get_sample_data'' ''1,2''"
  have cs: "get_or_empty (schema_info cached_state) = ''t(x)''" "get_or_empty (sample_data cached_state) = ''1''"
    by (simp_all add: cached_state_def get_or_empty_def)
  have o: "list_all from_other_tool [?q]"
    by (simp add: from_other_tool_def other_tools_def tool_message_def)
  from cache_written_only_by_fetch_tools [of "[?q]" cached_state] o cs
  have 1: "upd_schema_info (updates_of cached_state [?q]) = Some ''t(x)''"
    and 2: "upd_sample_data (updates_of cached_state [?q]) = Some ''1''"
    by simp_all
  have na: "names_schema_tool ?a" "list_all (\<lambda>m. \<not> names_schema_tool m) [?b]"
    by (simp_all add: names_schema_tool_def tool_message_def)
  have nb: "names_sample_tool ?b" "list_all (\<lambda>m. \<not> names_sample_tool m) []"
    by (simp_all add: names_sample_tool_def tool_message_def)
  from cache_written_only_by_fetch_tools [of _ _ ?a "[?b]" "[]"] na
  have 3: "upd_schema_info (updates_of cached_state [?a, ?b]) = Some ''t(x,y)''"
    by (simp add: tool_message_def)
  from cache_written_only_by_fetch_tools [of _ cached_state ?b "[]" "[?a]"] nb
  have 4: "upd_sample_data (updates_of cached_state [?a, ?b]) = Some ''1,2''"
    by (simp add: tool_message_def)
  have nr: "never_runs names_schema_tool sql_only_turn" "never_runs names_sample_tool sql_only_turn"
    by (simp_all add: never_runs_def sql_only_turn_def names_schema_tool_def names_sample_tool_def tool_message_def)
  have "case fst (run_graph cached_state sql_only_turn) of
          Return st \<Rightarrow> schema_info st = Some ''t(x)'' \<and> sample_data st = Some ''1''
        | Raise e \<Rightarrow> False
        | NoResponse \<Rightarrow> False"
    by code_simp
  then have ret: "\<exists>st. fst (run_graph cached_state sql_only_turn) = Return st
      \<and> schema_info st = Some ''t(x)'' \<and> sample_data st = Some ''1''"
    by (cases "fst (run_graph cached_state sql_only_turn)") simp_all
  then obtain st where st: "fst (run_graph cached_state sql_only_turn) = Return st"
      "schema_info st = Some ''t(x)''" "sample_data st = Some ''1''" by blast
  then have run: "run_graph cached_state sql_only_turn = (Return st, snd (run_graph cached_state sql_only_turn))"
    by (simp add: prod_eq_iff)
  from cache_written_only_by_fetch_tools [of _ cached_state _ _ _ sql_only_turn st
      "snd (run_graph cached_state sql_only_turn)"] run nr
  have 5: "get_or_empty (schema_info st) = get_or_empty (schema_info cached_state)"
    and 6: "get_or_empty (sample_data st) = get_or_empty (sample_data cached_state)"
    by simp_all
  from st 5 6 have "\<exists>s'. fst (run_graph cached_state sql_only_turn) = Return s'
         \<and> schema_info s' = Some ''t(x)'' \<and> sample_data s' = Some ''1''
         \<and> get_or_empty (schema_info s') = get_or_empty (schema_info cached_state)
         \<and> get_or_empty (sample_data s') = get_or_empty (sample_data cached_state)"
    by blast
  with 1 2 3 4 show ?thesis by (intro conjI)
qed

section \<open>The entry point: loading and retrying\<close>

lemma gps_never_raises: "fst (get_previous_state t a w) \<noteq> Raise e"
  by (auto simp: get_previous_state_def split: prod.splits outcome.splits)

lemma gps_returns:
  "get_state_answers w \<noteq> [] \<Longrightarrow> fst (get_previous_state t a w) = Return (cache_of_answer (answer (hd (get_state_answers w))))"
  by (cases "get_state_answers w"; cases "hd (get_state_answers w)")
     (auto simp: get_previous_state_def app_get_state_def answer_def split: outcome.splits)

lemma no_checkpoint_empty: "no_checkpoint x \<Longrightarrow> cache_of_answer (answer x) = empty_cache"
  by (cases x rule: no_checkpoint.cases) (simp_all add: cache_of_answer_def answer_def)

lemma gps_trace:
  "app_trace (snd (get_previous_state t a w))
     = app_trace w @ (case fst (get_previous_state t a w) of Return c \<Rightarrow> [Loaded t a c] | _ \<Rightarrow> [])"
  by (cases "get_state_answers w"; cases "hd (get_state_answers w)")
     (auto simp: get_previous_state_def app_get_state_def answer_def split: outcome.splits)

lemma app_invoke_trace:
  "app_trace (snd (app_invoke q p s a w)) = app_trace w @ [Invoke q p s a]"
  by (simp add: app_invoke_def split: list.splits)

lemma attempt_loop_shape:
  "list_all (\<lambda>k. k \<le> max_retries) atts \<Longrightarrow> atts \<noteq> [] \<Longrightarrow>
     \<exists>tail. app_trace (snd (attempt_loop atts q p s a w)) = app_trace w @ Invoke q p s a # tail
        \<and> retries_reloaded tail
        \<and> length (filter is_invoke tail) < length atts
        \<and> prefix (sleeps tail) (map backoff (takeWhile (\<lambda>k. k \<noteq> max_retries) atts))"
proof (induction atts arbitrary: p w)
  case Nil
  then show ?case by simp
next
  case (Cons k rest)
  obtain r1 w1 where i: "app_invoke q p s a w = (r1, w1)" by force
  with app_invoke_trace[of q p s a w] have t1: "app_trace w1 = app_trace w @ [Invoke q p s a]" by simp
  have fin: "snd (attempt_loop (k # rest) q p s a w) = w1 \<Longrightarrow> ?case"
    using t1 by (simp add: sleeps_def)
  show ?case
  proof (cases "\<exists>e. r1 = Raise e \<and> is_throttling e \<and> k \<noteq> max_retries")
    case False
    with i have "snd (attempt_loop (k # rest) q p s a w) = w1"
      by (cases r1) (auto simp: Let_def)
    then show ?thesis by (rule fin)
  next
    case True
    then obtain e where r1: "r1 = Raise e" and th: "is_throttling e" and km: "k \<noteq> max_retries" by blast
    from Cons.prems(1) km have klt: "k < max_retries" by simp
    let ?w2 = "app_sleep (2 ^ k + 1) w1"
    have t2: "app_trace ?w2 = app_trace w @ [Invoke q p s a, AppSleep (backoff k)]"
      using t1 by (simp add: app_sleep_def backoff_def)
    obtain r3 w3 where g: "get_previous_state s a ?w2 = (r3, w3)" by force
    from gps_never_raises[of s a ?w2] g have nr: "\<And>e'. r3 \<noteq> Raise e'" by simp
    from gps_trace[of s a ?w2] g
    have t3: "app_trace w3 = app_trace ?w2 @ (case r3 of Return c \<Rightarrow> [Loaded s a c] | _ \<Rightarrow> [])" by simp
    show ?thesis
    proof (cases r3)
      case (Return c)
      with i r1 th km klt g
      have step: "attempt_loop (k # rest) q p s a w = attempt_loop rest q c s a w3"
        by (simp add: Let_def)
      from t2 t3 Return have t3': "app_trace w3 = app_trace w @ [Invoke q p s a, AppSleep (backoff k), Loaded s a c]"
        by simp
      show ?thesis
      proof (cases rest)
        case Nil
        with step t3' km show ?thesis by (simp add: sleeps_def)
      next
        case (Cons k' rest')
        from Cons.prems(1) have "list_all (\<lambda>k. k \<le> max_retries) rest" by simp
        from Cons.IH[OF this, of c w3] Cons obtain tail where
          tl: "app_trace (snd (attempt_loop rest q c s a w3)) = app_trace w3 @ Invoke q c s a # tail"
            "retries_reloaded tail" "length (filter is_invoke tail) < length rest"
            "prefix (sleeps tail) (map backoff (takeWhile (\<lambda>k. k \<noteq> max_retries) rest))"
          by auto
        let ?tail = "AppSleep (backoff k) # Loaded s a c # Invoke q c s a # tail"
        have "app_trace (snd (attempt_loop (k # rest) q p s a w)) = app_trace w @ Invoke q p s a # ?tail"
          using step tl(1) t3' by simp
        moreover have "retries_reloaded ?tail" using tl(2) by simp
        moreover have "length (filter is_invoke ?tail) < length (k # rest)" using tl(3) by simp
        moreover have "prefix (sleeps ?tail) (map backoff (takeWhile (\<lambda>k. k \<noteq> max_retries) (k # rest)))"
          using tl(4) km by (simp add: sleeps_def)
        ultimately show ?thesis by blast
      qed
    next
      case (Raise e')
      with nr have False by blast
      then show ?thesis ..
    next
      case NoResponse
      with i r1 th km klt g have "snd (attempt_loop (k # rest) q p s a w) = w3"
        by (simp add: Let_def)
      with t2 t3 NoResponse km show ?thesis by (simp add: sleeps_def)
    qed
  qed
qed

lemma attempts: "[0 ..< max_retries + 1] = [0, 1, 2, 3]"
  by (simp add: max_retries_def upt_rec)

lemma attempts_facts:
  "list_all (\<lambda>k. k \<le> max_retries) [0 ..< max_retries + 1]"
  "[0 ..< max_retries + 1] \<noteq> []"
  "length [0 ..< max_retries + 1] = max_retries + 1"
  "takeWhile (\<lambda>k. k \<noteq> max_retries) [0 ..< max_retries + 1] = [0 ..< max_retries]"
  unfolding attempts by (simp_all add: max_retries_def upt_rec)

lemma snd_bind_pure: "snd (bind m (\<lambda>x. pure (f x)) w) = snd (m w)"
  by (cases "m w"; cases "fst (m w)") (auto simp: bind_def pure_def)

lemma loop_shape:
  "\<exists>tail. app_trace (snd (attempt_loop [0 ..< max_retries + 1] q p s a w)) = app_trace w @ Invoke q p s a # tail
        \<and> retries_reloaded tail
        \<and> length (filter is_invoke tail) \<le> max_retries
        \<and> prefix (sleeps tail) (map backoff [0 ..< max_retries])"
  using attempt_loop_shape[OF attempts_facts(1) attempts_facts(2), of q p s a w]
  unfolding attempts_facts(3) attempts_facts(4) by auto

lemma invoke_agent_reset_shape:
  "\<exists>tail. new_calls w (snd (invoke_agent q actor sess True w)) = Invoke q empty_cache sess actor # tail
        \<and> retries_reloaded tail
        \<and> length (filter is_invoke tail) \<le> max_retries
        \<and> prefix (sleeps tail) (map backoff [0 ..< max_retries])"
proof -
  have "snd (invoke_agent q actor sess True w) = snd (attempt_loop [0 ..< max_retries + 1] q empty_cache sess actor w)"
    by (simp add: invoke_agent_def bind_def[of "\<lambda>a. (Return empty_cache, a)"] snd_bind_pure)
  with loop_shape[of q empty_cache sess actor w] show ?thesis
    by (auto simp: new_calls_def)
qed

lemma invoke_agent_load_shape:
  "new_calls w (snd (invoke_agent q actor sess False w)) = []
   \<or> (\<exists>c tail. new_calls w (snd (invoke_agent q actor sess False w))
          = Loaded sess actor c # Invoke q c sess actor # tail
        \<and> fst (get_previous_state sess actor w) = Return c
        \<and> retries_reloaded tail
        \<and> length (filter is_invoke tail) \<le> max_retries
        \<and> prefix (sleeps tail) (map backoff [0 ..< max_retries]))"
proof -
  obtain r0 w0 where g: "get_previous_state sess actor w = (r0, w0)" by force
  from gps_trace[of sess actor w] g
  have t0: "app_trace w0 = app_trace w @ (case r0 of Return c \<Rightarrow> [Loaded sess actor c] | _ \<Rightarrow> [])" by simp
  show ?thesis
  proof (cases r0)
    case (Return c)
    with g have "snd (invoke_agent q actor sess False w) = snd (attempt_loop [0 ..< max_retries + 1] q c sess actor w0)"
      by (simp add: invoke_agent_def bind_def[of "get_previous_state sess actor"] snd_bind_pure)
    with loop_shape[of q c sess actor w0] t0 Return g show ?thesis
      by (auto simp: new_calls_def)
  next
    case (Raise e)
    with g gps_never_raises[of sess actor w e] show ?thesis by simp
  next
    case NoResponse
    with g t0 show ?thesis by (simp add: invoke_agent_def bind_def new_calls_def)
  qed
qed

lemma sleeps_append: "sleeps (xs @ ys) = sleeps xs @ sleeps ys"
  by (simp add: sleeps_def)

lemma sleeps_Invoke: "sleeps (Invoke q c s a # tail) = sleeps tail"
  by (simp add: sleeps_def)

lemma retries_reloaded_Loaded: "retries_reloaded tail \<Longrightarrow> tail = [] \<or> (\<exists>n rest. tail = AppSleep n # rest)"
  by (cases tail rule: retries_reloaded.cases) simp_all


section \<open>Retrying a throttled turn (C6)\<close>

text \<open>
  C6. In every run of \<open>invoke_agent\<close> the graph is invoked at most \<open>max_retries + 1\<close> = 4
  times (at most 3 retries); the sleeps of the run are, in order, an initial stretch of
  \<open>2 ^ a + 1\<close> seconds for \<open>a = 0, 1, 2\<close>; every invocation after the first follows a
  sleep and a load from the store and is given the cache that load returned; and an
  exception of an invocation that is not a throttling error ends the loop at once with
  that exception, with no sleep, load or further invocation.
\<close>

theorem throttled_turn_is_retried_with_reload:
  "length (filter is_invoke (new_calls w (snd (invoke_agent question actor_id session_id reset_memory w)))) \<le> max_retries + 1
   \<and> prefix (sleeps (new_calls w (snd (invoke_agent question actor_id session_id reset_memory w))))
              (map (\<lambda>attempt. 2 ^ attempt + 1) [0 ..< max_retries])
   \<and> retries_reloaded (after_first_invoke (new_calls w (snd (invoke_agent question actor_id session_id reset_memory w))))
   \<and> (fst (app_invoke question payload session_id actor_id w) = Raise e \<longrightarrow> \<not> is_throttling e \<longrightarrow>
        attempt_loop (attempt # rest) question payload session_id actor_id w
          = (Raise e, snd (app_invoke question payload session_id actor_id w)))"
proof -
  let ?new = "new_calls w (snd (invoke_agent question actor_id session_id reset_memory w))"
  have b: "map (\<lambda>attempt. 2 ^ attempt + 1) [0 ..< max_retries] = map backoff [0 ..< max_retries]"
    by (simp add: backoff_def)
  have shape: "?new = [] \<or> (\<exists>pre tail c. ?new = pre @ Invoke question c session_id actor_id # tail
        \<and> list_all (\<lambda>x. \<not> is_invoke x) pre \<and> sleeps pre = []
        \<and> retries_reloaded tail
        \<and> length (filter is_invoke tail) \<le> max_retries
        \<and> prefix (sleeps tail) (map backoff [0 ..< max_retries]))"
  proof (cases reset_memory)
    case True
    from invoke_agent_reset_shape[of w question actor_id session_id] obtain tail where
      "?new = [] @ Invoke question empty_cache session_id actor_id # tail" "retries_reloaded tail"
      "length (filter is_invoke tail) \<le> max_retries" "prefix (sleeps tail) (map backoff [0 ..< max_retries])"
      using True by auto
    then show ?thesis by (intro disjI2 exI[of _ "[]"] exI[of _ tail] exI[of _ empty_cache]) (simp add: sleeps_def)
  next
    case False
    from invoke_agent_load_shape[of w question actor_id session_id] False
    consider "?new = []" | c tail where
      "?new = [Loaded session_id actor_id c] @ Invoke question c session_id actor_id # tail" "retries_reloaded tail"
      "length (filter is_invoke tail) \<le> max_retries" "prefix (sleeps tail) (map backoff [0 ..< max_retries])"
      by auto
    then show ?thesis
    proof cases
      case 1
      then show ?thesis by simp
    next
      case 2
      then show ?thesis
        by (intro disjI2 exI[of _ "[Loaded session_id actor_id c]"] exI[of _ tail] exI[of _ c]) (simp add: sleeps_def)
    qed
  qed
  have 1: "length (filter is_invoke ?new) \<le> max_retries + 1"
    using shape by (auto simp: filter_empty_conv list_all_iff)
  have 2: "prefix (sleeps ?new) (map (\<lambda>attempt. 2 ^ attempt + 1) [0 ..< max_retries])"
    unfolding b using shape by (auto simp: sleeps_append sleeps_Invoke) (simp add: sleeps_def)
  have 3: "retries_reloaded (after_first_invoke ?new)"
    using shape by (auto simp: after_first_invoke_def dropWhile_append3 list_all_iff)
  have 4: "fst (app_invoke question payload session_id actor_id w) = Raise e \<longrightarrow> \<not> is_throttling e \<longrightarrow>
        attempt_loop (attempt # rest) question payload session_id actor_id w
          = (Raise e, snd (app_invoke question payload session_id actor_id w))"
    by (cases "app_invoke question payload session_id actor_id w") auto
  from 1 2 3 4 show ?thesis by (intro conjI)
qed


theorem throttled_turn_is_retried_with_reload_witness:
  "fst (invoke_agent ''top products'' ''actor'' ''session-1'' False throttled_once) = Return ''Done.''
   \<and> new_calls throttled_once (snd (invoke_agent ''top products'' ''actor'' ''session-1'' False throttled_once))
       = [Loaded ''session-1'' ''actor'' empty_cache, Invoke ''top products'' empty_cache ''session-1'' ''actor'',
          AppSleep 2, Loaded ''session-1'' ''actor'' stored, Invoke ''top products'' stored ''session-1'' ''actor'']
   \<and> retries_reloaded (after_first_invoke
         (new_calls throttled_once (snd (invoke_agent ''top products'' ''actor'' ''session-1'' False throttled_once))))
   \<and> fst (app_invoke ''top products'' stored ''session-1'' ''actor'' refused)
       = Raise (ClientError ''ValidationException'' refused_text)
   \<and> fst (attempt_loop [0, 1, 2, 3] ''top products'' stored ''session-1'' ''actor'' refused)
       = Raise (ClientError ''ValidationException'' refused_text)
   \<and> app_trace (snd (attempt_loop [0, 1, 2, 3] ''top products'' stored ''session-1'' ''actor'' refused))
       = [Invoke ''top products'' stored ''session-1'' ''actor'']"
proof -
  let ?e = "ClientError ''ValidationException'' refused_text"
  note T = throttled_turn_is_retried_with_reload
      [where w = throttled_once and question = "''top products''" and actor_id = "''actor''"
         and session_id = "''session-1''" and reset_memory = False]
  note R = throttled_turn_is_retried_with_reload
      [where w = refused and question = "''top products''" and actor_id = "''actor''"
         and session_id = "''session-1''" and payload = stored and e = ?e and attempt = 0
         and rest = "[1, 2, 3]", THEN conjunct2, THEN conjunct2, THEN conjunct2]
  have a: "fst (invoke_agent ''top products'' ''actor'' ''session-1'' False throttled_once) = Return ''Done.''"
    by code_simp
  have b: "new_calls throttled_once (snd (invoke_agent ''top products'' ''actor'' ''session-1'' False throttled_once))
       = [Loaded ''session-1'' ''actor'' empty_cache, Invoke ''top products'' empty_cache ''session-1'' ''actor'',
          AppSleep 2, Loaded ''session-1'' ''actor'' stored, Invoke ''top products'' stored ''session-1'' ''actor'']"
    by code_simp
  have c: "retries_reloaded (after_first_invoke
         (new_calls throttled_once (snd (invoke_agent ''top products'' ''actor'' ''session-1'' False throttled_once))))"
    using T by blast
  have d: "fst (app_invoke ''top products'' stored ''session-1'' ''actor'' refused) = Raise ?e"
    by code_simp
  have nt: "\<not> is_throttling ?e"
    by simp
  from R d nt have l: "attempt_loop [0, 1, 2, 3] ''top products'' stored ''session-1'' ''actor'' refused
       = (Raise ?e, snd (app_invoke ''top products'' stored ''session-1'' ''actor'' refused))"
    by blast
  have e: "fst (attempt_loop [0, 1, 2, 3] ''top products'' stored ''session-1'' ''actor'' refused) = Raise ?e"
    using l by simp
  have tr: "app_trace (snd (app_invoke ''top products'' stored ''session-1'' ''actor'' refused))
       = [Invoke ''top products'' stored ''session-1'' ''actor'']"
    by code_simp
  have f: "app_trace (snd (attempt_loop [0, 1, 2, 3] ''top products'' stored ''session-1'' ''actor'' refused))
       = [Invoke ''top products'' stored ''session-1'' ''actor'']"
    using l tr by simp
  from a b c d e f show ?thesis by (intro conjI)
qed

section \<open>Loading the session state, and resetting it (C8)\<close>

text \<open>
  C8, as amended. \<open>get_previous_state\<close> never raises; whenever the store answers it
  returns a cache, and the empty cache when the lookup raised, gave no snapshot or gave a
  snapshot without values. With \<^verbatim>\<open>reset_memory=True\<close> the first call of \<open>invoke_agent\<close>
  is the invocation of the graph with the empty cache, the store not being consulted
  before it; and nothing follows that invocation (the store is never consulted) unless it
  was throttled.
\<close>

theorem load_never_raises_and_reset_starts_empty:
  "fst (get_previous_state thread_id actor_id w) \<noteq> Raise e
   \<and> (get_state_answers w = x # rest \<longrightarrow>
        (\<exists>c. fst (get_previous_state thread_id actor_id w) = Return c)
        \<and> (no_checkpoint x \<longrightarrow> fst (get_previous_state thread_id actor_id w) = Return empty_cache))
   \<and> (\<exists>tail. new_calls w (snd (invoke_agent question actor_id session_id True w))
          = Invoke question empty_cache session_id actor_id # tail
          \<and> (tail = [] \<or> (\<exists>e'. fst (app_invoke question empty_cache session_id actor_id w) = Raise e' \<and> is_throttling e')))"
proof (intro conjI impI)
  show "fst (get_previous_state thread_id actor_id w) \<noteq> Raise e" by (rule gps_never_raises)
next
  assume a: "get_state_answers w = x # rest"
  with gps_returns[of w thread_id actor_id]
  show "\<exists>c. fst (get_previous_state thread_id actor_id w) = Return c" by simp
  assume "no_checkpoint x"
  with a gps_returns[of w thread_id actor_id] no_checkpoint_empty[of x]
  show "fst (get_previous_state thread_id actor_id w) = Return empty_cache" by simp
next
  let ?loop = "attempt_loop [0 ..< max_retries + 1] question empty_cache session_id actor_id w"
  have eq: "snd (invoke_agent question actor_id session_id True w) = snd ?loop"
    by (simp add: invoke_agent_def bind_def[of "\<lambda>a. (Return empty_cache, a)"] snd_bind_pure)
  obtain r1 w1 where i: "app_invoke question empty_cache session_id actor_id w = (r1, w1)" by force
  from invoke_agent_reset_shape[of w question actor_id session_id] obtain tail where
    t: "new_calls w (snd (invoke_agent question actor_id session_id True w))
          = Invoke question empty_cache session_id actor_id # tail" by blast
  show "\<exists>tail. new_calls w (snd (invoke_agent question actor_id session_id True w))
          = Invoke question empty_cache session_id actor_id # tail
          \<and> (tail = [] \<or> (\<exists>e'. fst (app_invoke question empty_cache session_id actor_id w) = Raise e' \<and> is_throttling e'))"
  proof (cases "\<exists>e'. r1 = Raise e' \<and> is_throttling e'")
    case True
    with i t show ?thesis by auto
  next
    case False
    with i have "snd ?loop = w1"
      unfolding attempts by (cases r1) auto
    with eq i app_invoke_trace[of question empty_cache session_id actor_id w]
    have "new_calls w (snd (invoke_agent question actor_id session_id True w))
          = [Invoke question empty_cache session_id actor_id]"
      by (simp add: new_calls_def)
    then show ?thesis by simp
  qed
qed

theorem load_never_raises_and_reset_starts_empty_witness:
  "no_checkpoint (Inl (OtherException ''store unavailable''))
   \<and> fst (get_previous_state ''session-1'' ''actor'' refused) = Return empty_cache
   \<and> new_calls refused (snd (invoke_agent ''top products'' ''actor'' ''session-1'' True refused))
       = [Invoke ''top products'' empty_cache ''session-1'' ''actor'']"
proof -
  note T = load_never_raises_and_reset_starts_empty
      [where thread_id = "''session-1''" and actor_id = "''actor''" and w = refused
         and x = "Inl (OtherException ''store unavailable'')" and rest = "[]"
         and question = "''top products''" and session_id = "''session-1''"]
  have g: "get_state_answers refused = [Inl (OtherException ''store unavailable'')]"
    by (simp add: refused_def)
  have n: "no_checkpoint (Inl (OtherException ''store unavailable''))"
    by simp
  from T g n have a: "fst (get_previous_state ''session-1'' ''actor'' refused) = Return empty_cache"
    by blast
  have i: "fst (app_invoke ''top products'' empty_cache ''session-1'' ''actor'' refused)
      = Raise (ClientError ''ValidationException'' refused_text)"
    by code_simp
  have nt: "\<not> is_throttling (ClientError ''ValidationException'' refused_text)"
    by simp
  from T obtain tail where t: "new_calls refused (snd (invoke_agent ''top products'' ''actor'' ''session-1'' True refused))
          = Invoke ''top products'' empty_cache ''session-1'' ''actor'' # tail"
      "tail = [] \<or> (\<exists>e'. fst (app_invoke ''top products'' empty_cache ''session-1'' ''actor'' refused) = Raise e'
          \<and> is_throttling e')"
    by blast
  from t(2) i nt have "tail = []" by auto
  with t(1) n a show ?thesis by simp
qed

text \<open>
  The claim as stated fails: with \<^verbatim>\<open>reset_memory=True\<close> and a first invocation that is
  throttled, the store is consulted before the retry and the retry is given the stored
  cache, which is not empty.
\<close>

theorem reset_turn_reloads_on_retry:
  "new_calls throttled_after_reset
       (snd (invoke_agent ''top products'' ''actor'' ''session-1'' True throttled_after_reset))
     = [Invoke ''top products'' empty_cache ''session-1'' ''actor'', AppSleep 2,
        Loaded ''session-1'' ''actor'' stored, Invoke ''top products'' stored ''session-1'' ''actor'']
   \<and> stored \<noteq> empty_cache"
  by code_simp

end
